theory Spec2Isabelle
  imports Complex_Main
begin

section \<open>Tokens (token.hpp)\<close>

text \<open>
  The enum class \<^verbatim>\<open>TokenType\<close>. The constructors keep the source's names; where a
  name is shared with another enum of the program or with a constant of HOL it is
  written qualified, \<open>TokenType.Plus\<close>, as the source writes \<^verbatim>\<open>TokenType::Plus\<close>.
\<close>

datatype TokenType =
    Number | String | Identifier
  | Funkcio | Klaso | Se | Alie | Dum | Reveni | Tiu | Vero | Malvero
  | Entjera | Reala | Teksta | Bulea | Funkcia
  | Plus | Minus | Multiply | Divide | Assign | Equal | NotEqual
  | Less | Greater | LessEqual | GreaterEqual
  | LParen | RParen | LBrace | RBrace | Semicolon | Comma | At | Dot
  | EndOfFile | Unknown

text \<open>The keyword table \<^verbatim>\<open>Id2TokenType\<close>, a \<^verbatim>\<open>std::map\<close> with distinct keys.\<close>

definition Id2TokenType :: "(string \<times> TokenType) list" where
  "Id2TokenType =
    [(''funkcio'', TokenType.Funkcio), (''klaso'', TokenType.Klaso), (''se'', TokenType.Se),
     (''alie'', TokenType.Alie), (''dum'', TokenType.Dum), (''reveni'', TokenType.Reveni),
     (''tiu'', TokenType.Tiu), (''vero'', TokenType.Vero), (''malvero'', TokenType.Malvero),
     (''entjera'', TokenType.Entjera), (''reala'', TokenType.Reala),
     (''teksta'', TokenType.Teksta), (''bulea'', TokenType.Bulea),
     (''funkcia'', TokenType.Funkcia)]"

text \<open>
  \<^verbatim>\<open>struct Token\<close>, built positionally as the source's \<^verbatim>\<open>Token{type, value, line, column}\<close>.
  The two \<^verbatim>\<open>int\<close> fields are unbounded integers here: a counter is incremented at most once
  per character consumed, so it stays below \<open>2^31\<close> on every source shorter than 2 GiB.
\<close>

datatype Token = Token (tok_type: TokenType) (tok_value: string) (tok_line: int) (tok_column: int)

subsection \<open>Character classes\<close>

text \<open>
  \<^verbatim>\<open>std::isdigit\<close>, \<^verbatim>\<open>std::isalpha\<close>, \<^verbatim>\<open>std::isalnum\<close> and \<^verbatim>\<open>std::isspace\<close> of the C library, in
  the "C" locale the program runs in (it never calls \<^verbatim>\<open>setlocale\<close>): the ASCII classes, and
  no byte above \<open>0x7F\<close> in any of them.
\<close>

definition isdigit :: "char \<Rightarrow> bool" where
  "isdigit c = (c \<in> set ''0123456789'')"

definition isalpha :: "char \<Rightarrow> bool" where
  "isalpha c = (c \<in> set ''abcdefghijklmnopqrstuvwxyzABCDEFGHIJKLMNOPQRSTUVWXYZ'')"

definition isalnum :: "char \<Rightarrow> bool" where
  "isalnum c = (isalpha c \<or> isdigit c)"

definition isspace :: "char \<Rightarrow> bool" where
  "isspace c = (c \<in> set [CHR 0x20, CHR 0x09, CHR 0x0A, CHR 0x0B, CHR 0x0C, CHR 0x0D])"

subsection \<open>The tokenizer's cursor\<close>

text \<open>
  \<^verbatim>\<open>class Tokenizer\<close>: the source text and the cursor (\<^verbatim>\<open>size_t m_position\<close>, and the line and
  column counters). The constructor starts at position 0, line 1, column 0.
\<close>

record Tokenizer =
  m_source :: string
  m_position :: nat
  m_line :: int
  m_column :: int

definition Tokenizer :: "string \<Rightarrow> Tokenizer" where
  "Tokenizer src = \<lparr>m_source = src, m_position = 0, m_line = 1, m_column = 0\<rparr>"

text \<open>\<^verbatim>\<open>current()\<close> and \<^verbatim>\<open>peek()\<close> read the NUL character beyond the end of the source.\<close>

definition current :: "Tokenizer \<Rightarrow> char" where
  "current t =
     (if m_position t < length (m_source t) then m_source t ! m_position t else CHR 0x00)"

definition peek :: "Tokenizer \<Rightarrow> char" where
  "peek t =
     (let pos = m_position t + 1
      in if pos < length (m_source t) then m_source t ! pos else CHR 0x00)"

text \<open>\<^verbatim>\<open>advance()\<close> moves the position unconditionally, also beyond the end of the source.\<close>

definition advance :: "Tokenizer \<Rightarrow> Tokenizer" where
  "advance t =
     (if current t = CHR 0x0A
      then t\<lparr>m_line := m_line t + 1, m_column := 0, m_position := m_position t + 1\<rparr>
      else t\<lparr>m_column := m_column t + 1, m_position := m_position t + 1\<rparr>)"

lemma advance_source [simp]: "m_source (advance t) = m_source t"
  by (simp add: advance_def)

lemma advance_position [simp]: "m_position (advance t) = Suc (m_position t)"
  by (simp add: advance_def)

lemma current_in_range: "current t \<noteq> CHR 0x00 \<Longrightarrow> m_position t < length (m_source t)"
  by (simp add: current_def split: if_splits)

lemma isspace_not_nul: "isspace c \<Longrightarrow> c \<noteq> CHR 0x00"
  by (auto simp: isspace_def)

lemma isdigit_not_nul: "isdigit c \<Longrightarrow> c \<noteq> CHR 0x00"
  by (auto simp: isdigit_def)

lemma isalpha_not_nul: "isalpha c \<Longrightarrow> c \<noteq> CHR 0x00"
  by (auto simp: isalpha_def)

lemma isalnum_not_nul: "isalnum c \<Longrightarrow> c \<noteq> CHR 0x00"
  using isalpha_not_nul isdigit_not_nul by (auto simp: isalnum_def)

text \<open>Consuming a character that is not NUL brings the cursor closer to the end.\<close>

lemma advance_measure:
  "current t \<noteq> CHR 0x00 \<Longrightarrow>
     length (m_source t) - Suc (m_position t) < length (m_source t) - m_position t"
  by (drule current_in_range) simp

lemma advance_advance_measure:
  "current t \<noteq> CHR 0x00 \<Longrightarrow>
     length (m_source t) - Suc (Suc (m_position t)) < length (m_source t) - m_position t"
  by (drule current_in_range) simp

subsection \<open>Skipping white space and comments\<close>

text \<open>
  The \<^verbatim>\<open>while\<close> loop of \<^verbatim>\<open>skipWhitespace\<close>, with the flag \<^verbatim>\<open>isWhitespace\<close> as accumulator.
  It stops at the end of the source, where \<^verbatim>\<open>current()\<close> is NUL.
\<close>

function skipWhitespaceLoop :: "bool \<Rightarrow> Tokenizer \<Rightarrow> bool \<times> Tokenizer" where
  "skipWhitespaceLoop isWhitespace t =
     (if isspace (current t) then skipWhitespaceLoop True (advance t)
      else (isWhitespace, t))"
  by pat_completeness auto
termination
  by (relation "measure (\<lambda>(b, t). length (m_source t) - m_position t)")
     (auto intro!: advance_measure dest: isspace_not_nul)

definition skipWhitespace :: "Tokenizer \<Rightarrow> bool \<times> Tokenizer" where
  "skipWhitespace t = skipWhitespaceLoop False t"

function skipCommentLoop :: "bool \<Rightarrow> Tokenizer \<Rightarrow> bool \<times> Tokenizer" where
  "skipCommentLoop isComment t =
     (if \<not> (current t = CHR 0x0A \<or> current t = CHR 0x00)
      then skipCommentLoop True (advance t)
      else (isComment, t))"
  by pat_completeness auto
termination
  by (relation "measure (\<lambda>(b, t). length (m_source t) - m_position t)")
     (auto intro!: advance_measure)

definition skipComment :: "Tokenizer \<Rightarrow> bool \<times> Tokenizer" where
  "skipComment t =
     (if current t = CHR ''/'' \<and> peek t = CHR ''/'' then skipCommentLoop False t
      else (False, t))"

subsection \<open>Reading literals and identifiers\<close>

text \<open>
  The loop of \<^verbatim>\<open>readNumber\<close>: \<^verbatim>\<open>number\<close> and \<^verbatim>\<open>isFloat\<close> are the accumulators; the \<^verbatim>\<open>break\<close> at
  a second \<open>.\<close> returns without consuming it.
\<close>

function readNumberLoop :: "string \<Rightarrow> bool \<Rightarrow> Tokenizer \<Rightarrow> string \<times> Tokenizer" where
  "readNumberLoop number isFloat t =
     (if isdigit (current t) \<or> current t = CHR ''.'' then
        (if current t = CHR ''.'' then
           (if isFloat then (number, t)
            else readNumberLoop (number @ [current t]) True (advance t))
         else readNumberLoop (number @ [current t]) isFloat (advance t))
      else (number, t))"
  by pat_completeness auto
termination
  by (relation "measure (\<lambda>(n, f, t). length (m_source t) - m_position t)")
     (auto intro!: advance_measure dest: isdigit_not_nul)

text \<open>The token takes \<^verbatim>\<open>m_line\<close> as it is after the loop, and the column saved before it.\<close>

definition readNumber :: "Tokenizer \<Rightarrow> Token \<times> Tokenizer" where
  "readNumber t =
     (let startColumn = m_column t;
          (number, t') = readNumberLoop [] False t
      in (Token TokenType.Number number (m_line t') startColumn, t'))"

text \<open>
  The loop of \<^verbatim>\<open>readString\<close>. After a backslash the cursor advances and the next character
  is translated (\<open>n\<close>, \<open>t\<close>, backslash, quote) or copied; at the end of the source that next
  character is the NUL that \<^verbatim>\<open>current()\<close> returns, and the cursor then advances beyond the end.
\<close>

function readStringLoop :: "string \<Rightarrow> Tokenizer \<Rightarrow> string \<times> Tokenizer" where
  "readStringLoop str t =
     (if \<not> (current t = CHR 0x22 \<or> current t = CHR 0x00) then
        (if current t = CHR 0x5C then
           (let t1 = advance t;
                c = current t1;
                str1 = (if c = CHR ''n'' then str @ [CHR 0x0A]
                        else if c = CHR ''t'' then str @ [CHR 0x09]
                        else if c = CHR 0x5C then str @ [CHR 0x5C]
                        else if c = CHR 0x22 then str @ [CHR 0x22]
                        else str @ [c])
            in readStringLoop str1 (advance t1))
         else readStringLoop (str @ [current t]) (advance t))
      else (str, t))"
  by pat_completeness auto
termination
  by (relation "measure (\<lambda>(s, t). length (m_source t) - m_position t)")
     (auto intro!: advance_measure advance_advance_measure)

definition readString :: "Tokenizer \<Rightarrow> Token \<times> Tokenizer" where
  "readString t =
     (let startColumn = m_column t;
          (str, t1) = readStringLoop [] (advance t);
          t2 = (if current t1 = CHR 0x22 then advance t1 else t1)
      in (Token TokenType.String str (m_line t2) startColumn, t2))"

function readIdentifierLoop :: "string \<Rightarrow> Tokenizer \<Rightarrow> string \<times> Tokenizer" where
  "readIdentifierLoop ident t =
     (if isalnum (current t) \<or> current t = CHR ''_''
      then readIdentifierLoop (ident @ [current t]) (advance t)
      else (ident, t))"
  by pat_completeness auto
termination
  by (relation "measure (\<lambda>(s, t). length (m_source t) - m_position t)")
     (auto intro!: advance_measure dest: isalnum_not_nul)

definition readIdentifier :: "Tokenizer \<Rightarrow> Token \<times> Tokenizer" where
  "readIdentifier t =
     (let startColumn = m_column t;
          (ident, t') = readIdentifierLoop [] t;
          type = (case map_of Id2TokenType ident of
                    Some k \<Rightarrow> k
                  | None \<Rightarrow> TokenType.Identifier)
      in (Token type ident (m_line t') startColumn, t'))"

text \<open>
  The loop equations are unconditional recursive equations: they are unfolded by hand, one
  iteration at a time, and not by the simplifier.
\<close>

declare skipWhitespaceLoop.simps [simp del]
declare skipCommentLoop.simps [simp del]
declare readNumberLoop.simps [simp del]
declare readStringLoop.simps [simp del]
declare readIdentifierLoop.simps [simp del]

subsection \<open>The main loop\<close>

text \<open>
  The \<^verbatim>\<open>switch\<close> of \<^verbatim>\<open>tokenize\<close> on a character that starts no number, string or
  identifier: the token type, the token text and the cursor (moved over the first character
  of a two-character operator). A lone \<open>!\<close> keeps the initial type \<^verbatim>\<open>Unknown\<close>.
\<close>

definition switchCurrent :: "Tokenizer \<Rightarrow> TokenType \<times> string \<times> Tokenizer" where
  "switchCurrent t =
     (let c = current t; v = [c] in
      if c = CHR ''+'' then (TokenType.Plus, v, t)
      else if c = CHR ''-'' then (TokenType.Minus, v, t)
      else if c = CHR ''*'' then (TokenType.Multiply, v, t)
      else if c = CHR ''/'' then (TokenType.Divide, v, t)
      else if c = CHR ''('' then (TokenType.LParen, v, t)
      else if c = CHR '')'' then (TokenType.RParen, v, t)
      else if c = CHR ''{'' then (TokenType.LBrace, v, t)
      else if c = CHR ''}'' then (TokenType.RBrace, v, t)
      else if c = CHR '';'' then (TokenType.Semicolon, v, t)
      else if c = CHR '','' then (TokenType.Comma, v, t)
      else if c = CHR ''@'' then (TokenType.At, v, t)
      else if c = CHR ''.'' then (TokenType.Dot, v, t)
      else if c = CHR ''='' then
        (if peek t = CHR ''='' then (TokenType.Equal, ''=='', advance t)
         else (TokenType.Assign, v, t))
      else if c = CHR ''!'' then
        (if peek t = CHR ''='' then (TokenType.NotEqual, ''!='', advance t)
         else (TokenType.Unknown, v, t))
      else if c = CHR ''<'' then
        (if peek t = CHR ''='' then (TokenType.LessEqual, ''<='', advance t)
         else (TokenType.Less, v, t))
      else if c = CHR ''>'' then
        (if peek t = CHR ''='' then (TokenType.GreaterEqual, ''>='', advance t)
         else (TokenType.Greater, v, t))
      else (TokenType.Unknown, v, t))"

text \<open>
  One iteration of the \<^verbatim>\<open>while\<close> loop of \<^verbatim>\<open>tokenize\<close>, entered with \<^verbatim>\<open>current() != '\0'\<close>:
  the vector \<^verbatim>\<open>tokens\<close> and the cursor after it. The two \<^verbatim>\<open>continue\<close> statements leave the
  vector as it is.
\<close>

definition tokenizeStep :: "Token list \<Rightarrow> Tokenizer \<Rightarrow> Token list \<times> Tokenizer" where
  "tokenizeStep tokens t =
     (case skipWhitespace t of
        (True, t1) \<Rightarrow> (tokens, t1)
      | (False, t1) \<Rightarrow>
     (case skipComment t1 of
        (True, t2) \<Rightarrow> (tokens, t2)
      | (False, t2) \<Rightarrow>
         (let startColumn = m_column t2 in
          if isdigit (current t2) then
            (let (tok, t3) = readNumber t2 in (tokens @ [tok], t3))
          else if current t2 = CHR 0x22 then
            (let (tok, t3) = readString t2 in (tokens @ [tok], t3))
          else if isalpha (current t2) \<or> current t2 = CHR ''_'' then
            (let (tok, t3) = readIdentifier t2 in (tokens @ [tok], t3))
          else
            (let (type, val, t3) = switchCurrent t2
             in (tokens @ [Token type val (m_line t3) startColumn], advance t3)))))"

subsection \<open>Every iteration consumes a character\<close>

lemma skipWhitespaceLoop_cursor:
  "skipWhitespaceLoop b t = (b', t') \<Longrightarrow>
     m_source t' = m_source t \<and> m_position t \<le> m_position t' \<and> (b \<longrightarrow> b') \<and>
     (b' \<and> \<not> b \<longrightarrow> m_position t < m_position t') \<and> (\<not> b' \<longrightarrow> t' = t)"
proof (induction b t rule: skipWhitespaceLoop.induct)
  case (1 isWhitespace t)
  show ?case
  proof (cases "isspace (current t)")
    case True
    with "1.prems" have "skipWhitespaceLoop True (advance t) = (b', t')"
      by (subst (asm) skipWhitespaceLoop.simps) simp
    from "1.IH" [OF True this] show ?thesis by auto
  next
    case False
    with "1.prems" show ?thesis
      by (subst (asm) skipWhitespaceLoop.simps) auto
  qed
qed

lemma skipCommentLoop_cursor:
  "skipCommentLoop b t = (b', t') \<Longrightarrow>
     m_source t' = m_source t \<and> m_position t \<le> m_position t' \<and> (b \<longrightarrow> b') \<and>
     (b' \<and> \<not> b \<longrightarrow> m_position t < m_position t') \<and> (\<not> b' \<longrightarrow> t' = t)"
proof (induction b t rule: skipCommentLoop.induct)
  case (1 isComment t)
  show ?case
  proof (cases "\<not> (current t = CHR 0x0A \<or> current t = CHR 0x00)")
    case True
    with "1.prems" have "skipCommentLoop True (advance t) = (b', t')"
      by (subst (asm) skipCommentLoop.simps) simp
    from "1.IH" [OF True this] show ?thesis by auto
  next
    case False
    with "1.prems" show ?thesis
      by (subst (asm) skipCommentLoop.simps) auto
  qed
qed

lemma isdigit_not_dot: "isdigit c \<Longrightarrow> c \<noteq> CHR ''.''"
  by (auto simp: isdigit_def)

lemma readNumberLoop_cursor:
  "readNumberLoop n f t = (n', t') \<Longrightarrow>
     m_source t' = m_source t \<and> m_position t \<le> m_position t' \<and>
     (isdigit (current t) \<longrightarrow> m_position t < m_position t')"
proof (induction n f t rule: readNumberLoop.induct)
  case (1 number isFloat t)
  note eq = "1.prems" [unfolded readNumberLoop.simps [of number isFloat t]]
  show ?case
  proof (cases "isdigit (current t)")
    case True
    then have nd: "current t \<noteq> CHR ''.''" by (rule isdigit_not_dot)
    with eq True have "readNumberLoop (number @ [current t]) isFloat (advance t) = (n', t')"
      by simp
    from "1.IH"(2) [OF _ nd this] True show ?thesis by simp
  next
    case nodigit: False
    show ?thesis
    proof (cases "current t = CHR ''.'' \<and> \<not> isFloat")
      case True
      with eq have "readNumberLoop (number @ [current t]) True (advance t) = (n', t')"
        by simp
      from "1.IH"(1) [OF _ _ _ this] True nodigit show ?thesis by simp
    next
      case False
      with eq nodigit have "t' = t" by (simp split: if_splits)
      with nodigit show ?thesis by simp
    qed
  qed
qed


lemma readStringLoop_cursor:
  "readStringLoop s t = (s', t') \<Longrightarrow>
     m_source t' = m_source t \<and> m_position t \<le> m_position t'"
proof (induction s t rule: readStringLoop.induct)
  case (1 str t)
  note eq = "1.prems" [unfolded readStringLoop.simps [of str t]]
  show ?case
  proof (cases "\<not> (current t = CHR 0x22 \<or> current t = CHR 0x00)")
    case go: True
    show ?thesis
    proof (cases "current t = CHR 0x5C")
      case True
      from "1.IH"(1) [OF go True refl refl refl] eq go True show ?thesis
        by (simp add: Let_def)
    next
      case False
      from "1.IH"(2) [OF go False] eq go False show ?thesis by simp
    qed
  next
    case False
    with eq show ?thesis by auto
  qed
qed

lemma readIdentifierLoop_cursor:
  "readIdentifierLoop s t = (s', t') \<Longrightarrow>
     m_source t' = m_source t \<and> m_position t \<le> m_position t' \<and>
     (isalpha (current t) \<or> current t = CHR ''_'' \<longrightarrow> m_position t < m_position t')"
proof (induction s t rule: readIdentifierLoop.induct)
  case (1 ident t)
  note eq = "1.prems" [unfolded readIdentifierLoop.simps [of ident t]]
  show ?case
  proof (cases "isalnum (current t) \<or> current t = CHR ''_''")
    case True
    from "1.IH" [OF True] eq True show ?thesis by simp
  next
    case False
    with eq show ?thesis by (auto simp: isalnum_def)
  qed
qed

lemma readNumber_cursor:
  "readNumber t = (tok, t') \<Longrightarrow>
     m_source t' = m_source t \<and> (isdigit (current t) \<longrightarrow> m_position t < m_position t')"
  using readNumberLoop_cursor [of "[]" False t]
  by (auto simp: readNumber_def Let_def split: prod.splits)

lemma readString_cursor:
  "readString t = (tok, t') \<Longrightarrow> m_source t' = m_source t \<and> m_position t < m_position t'"
  using readStringLoop_cursor [of "[]" "advance t"]
  by (auto simp: readString_def Let_def split: prod.splits if_splits)

lemma readIdentifier_cursor:
  "readIdentifier t = (tok, t') \<Longrightarrow>
     m_source t' = m_source t \<and>
     (isalpha (current t) \<or> current t = CHR ''_'' \<longrightarrow> m_position t < m_position t')"
  using readIdentifierLoop_cursor [of "[]" t]
  by (auto simp: readIdentifier_def Let_def split: prod.splits)

lemma switchCurrent_cursor:
  "switchCurrent t = (ty, v, t') \<Longrightarrow> m_source t' = m_source t \<and> m_position t \<le> m_position t'"
  by (auto simp: switchCurrent_def Let_def split: if_splits)

lemma skipComment_cursor:
  "skipComment t = (b', t') \<Longrightarrow>
     m_source t' = m_source t \<and> (b' \<longrightarrow> m_position t < m_position t') \<and> (\<not> b' \<longrightarrow> t' = t)"
  using skipCommentLoop_cursor [of False t b' t']
  by (auto simp: skipComment_def split: if_splits)

lemma skipWhitespace_cursor:
  "skipWhitespace t = (b', t') \<Longrightarrow>
     m_source t' = m_source t \<and> (b' \<longrightarrow> m_position t < m_position t') \<and> (\<not> b' \<longrightarrow> t' = t)"
  using skipWhitespaceLoop_cursor [of False t b' t']
  by (auto simp: skipWhitespace_def)

lemma tokenizeStep_cursor:
  assumes "tokenizeStep tokens t = (tokens', t')"
  shows "m_source t' = m_source t \<and> m_position t < m_position t'"
proof -
  obtain b1 t1 where ws: "skipWhitespace t = (b1, t1)" by (cases "skipWhitespace t")
  obtain b2 t2 where cm: "skipComment t1 = (b2, t2)" by (cases "skipComment t1")
  note w = skipWhitespace_cursor [OF ws] and c = skipComment_cursor [OF cm]
  show ?thesis
  proof (cases b1)
    case True
    with assms ws w show ?thesis by (simp add: tokenizeStep_def)
  next
    case nb1: False
    show ?thesis
    proof (cases b2)
      case True
      with assms ws cm w c nb1 show ?thesis by (simp add: tokenizeStep_def)
    next
      case nb2: False
      with nb1 w c have same: "t1 = t" "t2 = t" by simp_all
      show ?thesis
      proof (cases "isdigit (current t)")
        case True
        obtain tok t3 where r: "readNumber t = (tok, t3)" by (cases "readNumber t")
        from assms ws cm nb1 nb2 same True r readNumber_cursor [OF r] show ?thesis
          by (simp add: tokenizeStep_def)
      next
        case nd: False
        show ?thesis
        proof (cases "current t = CHR 0x22")
          case True
          obtain tok t3 where r: "readString t = (tok, t3)" by (cases "readString t")
          from assms ws cm nb1 nb2 same nd True r readString_cursor [OF r] show ?thesis
            by (simp add: tokenizeStep_def)
        next
          case nq: False
          show ?thesis
          proof (cases "isalpha (current t) \<or> current t = CHR ''_''")
            case True
            obtain tok t3 where r: "readIdentifier t = (tok, t3)" by (cases "readIdentifier t")
            from assms ws cm nb1 nb2 same nd nq True r readIdentifier_cursor [OF r] show ?thesis
              by (auto simp add: tokenizeStep_def)
          next
            case False
            obtain ty v t3 where r: "switchCurrent t = (ty, v, t3)" by (cases "switchCurrent t")
            from assms ws cm nb1 nb2 same nd nq False r switchCurrent_cursor [OF r] show ?thesis
              by (auto simp add: tokenizeStep_def)
          qed
        qed
      qed
    qed
  qed
qed

text \<open>
  The \<^verbatim>\<open>while\<close> loop of \<^verbatim>\<open>tokenize\<close> and the end-of-file token pushed after it. The loop
  terminates because every iteration moves the cursor, which is below the length of the
  source whenever the loop is entered.
\<close>

function tokenizeLoop :: "Token list \<Rightarrow> Tokenizer \<Rightarrow> Token list \<times> Tokenizer" where
  "tokenizeLoop tokens t =
     (if current t \<noteq> CHR 0x00 then
        (case tokenizeStep tokens t of (tokens', t') \<Rightarrow> tokenizeLoop tokens' t')
      else (tokens @ [Token TokenType.EndOfFile [] (m_line t) (m_column t)], t))"
  by pat_completeness auto
termination
  apply (relation "measure (\<lambda>(tokens, t). length (m_source t) - m_position t)")
   apply simp
  subgoal for tokens t tokens' t'
    using tokenizeStep_cursor [of tokens t tokens' t'] current_in_range [of t]
    by (cases "tokenizeStep tokens t") auto
  done

text \<open>\<^verbatim>\<open>Tokenizer(src).tokenize()\<close>.\<close>

definition tokenize :: "string \<Rightarrow> Token list" where
  "tokenize src = fst (tokenizeLoop [] (Tokenizer src))"

declare tokenizeLoop.simps [simp del]

text \<open>
  The loop of \<^verbatim>\<open>tokenize\<close> with a bound on the number of times its condition is evaluated:
  \<open>None\<close> when the bound is reached before the loop ends.
\<close>

fun tokenizeBounded :: "nat \<Rightarrow> Token list \<Rightarrow> Tokenizer \<Rightarrow> (Token list \<times> Tokenizer) option" where
  "tokenizeBounded 0 tokens t = None"
| "tokenizeBounded (Suc n) tokens t =
     (if current t \<noteq> CHR 0x00 then
        (case tokenizeStep tokens t of (tokens', t') \<Rightarrow> tokenizeBounded n tokens' t')
      else Some (tokens @ [Token TokenType.EndOfFile [] (m_line t) (m_column t)], t))"

text \<open>The cursor with which \<^verbatim>\<open>tokenize\<close> leaves its loop.\<close>

definition finalCursor :: "string \<Rightarrow> Tokenizer" where
  "finalCursor src = snd (tokenizeLoop [] (Tokenizer src))"

text \<open>
  The characters that no branch of \<^verbatim>\<open>tokenize\<close> recognizes: not the NUL that ends the loop, no
  white space, digit, quote, letter or underscore, and none of the \<^verbatim>\<open>case\<close> labels of the
  \<^verbatim>\<open>switch\<close>.
\<close>

definition unrecognized :: "char \<Rightarrow> bool" where
  "unrecognized c =
     (c \<noteq> CHR 0x00 \<and> \<not> isspace c \<and> \<not> isdigit c \<and> c \<noteq> CHR 0x22 \<and> \<not> isalpha c
      \<and> c \<noteq> CHR ''_'' \<and> c \<notin> set ''+-*/(){};,@.=!<>'')"


text \<open>The part of the source that the cursor has not consumed.\<close>

definition remaining :: "Tokenizer \<Rightarrow> string" where
  "remaining t = drop (m_position t) (m_source t)"

section \<open>The syntax tree (ast.hpp)\<close>

datatype TypeKind = Entjera | Reala | Teksta | Bulea | Funkcia | Klaso | Void

text \<open>
  \<^verbatim>\<open>struct Type\<close>: the kind, the two nullable component types and the class name. The
  constructor \<^verbatim>\<open>Type(TypeKind k)\<close> leaves the pointers null and the name empty.
\<close>

datatype Type =
  Type (kind: TypeKind) (returnType: "Type option") (paramType: "Type option") (className: string)

definition make_Type :: "TypeKind \<Rightarrow> Type" where
  "make_Type k = Type k None None []"

datatype OpType = Add | Sub | Mul | Div | Eq | NEq | LT | GT | LE | GE

text \<open>
  The node classes. \<open>'d\<close> is the type of the \<^verbatim>\<open>double\<close> that a number literal holds. The
  constructor \<open>Expr\<close> is the conversion of an expression node to a \<^verbatim>\<open>shared_ptr<ASTNode>\<close>, which
  is what statement lists hold. The field \<^verbatim>\<open>ExprNode::type\<close> is left out: no function of the
  program assigns it. The vectors of \<^verbatim>\<open>ClassDeclNode\<close> hold variable and function declarations.
\<close>

datatype 'd ExprNode =
    NumberLiteral 'd bool
  | StringLiteral string
  | BoolLiteral bool
  | VarRefNode string
  | BinaryOpNode OpType "'d ExprNode" "'d ExprNode"
  | CallNode "'d ExprNode" "'d ExprNode"
  | AtFunctionNode string Type Type "'d ASTNode list"
  | MemberAccessNode "'d ExprNode" string
and 'd ASTNode =
    Expr "'d ExprNode"
  | VarDeclNode string Type "'d ExprNode option"
  | AssignNode string "'d ExprNode"
  | FunctionDeclNode string string Type Type "'d ASTNode list"
  | ReturnNode "'d ExprNode"
  | IfNode "'d ExprNode" "'d ASTNode list" "'d ASTNode list"
  | WhileNode "'d ExprNode" "'d ASTNode list"
  | ClassDeclNode string "'d ASTNode list" "'d ASTNode list"

datatype 'd ProgramNode = ProgramNode "'d ASTNode list"

section \<open>The parser (parser.hpp)\<close>

text \<open>
  What a call of the parser can do besides returning: throw \<^verbatim>\<open>std::runtime_error\<close> with a
  message, let an exception of \<^verbatim>\<open>std::stod\<close> through, or read \<^verbatim>\<open>m_tokens\<close> out of range,
  which is undefined behaviour in C++ and where the model stops.
\<close>

datatype error =
    runtime_error string
  | invalid_argument
  | out_of_range
  | undefined_behaviour

text \<open>
  The recursion of the parser follows the nesting of the input and need not end on a token
  vector without an end-of-file token, so the functions take a bound on the depth of calls and
  loop iterations: \<open>None\<close> is a call that did not return within the bound, \<open>Some (Inl e)\<close> a
  call that threw, \<open>Some (Inr x)\<close> a call that returned.
\<close>

type_synonym 'a result = "(error + 'a) option"

definition ok :: "'a \<Rightarrow> 'a result" where
  "ok x = Some (Inr x)"

definition throw :: "error \<Rightarrow> 'a result" where
  "throw e = Some (Inl e)"

definition andThen :: "'a result \<Rightarrow> ('a \<Rightarrow> 'b result) \<Rightarrow> 'b result" where
  "andThen m f = (case m of None \<Rightarrow> None | Some (Inl e) \<Rightarrow> Some (Inl e) | Some (Inr x) \<Rightarrow> f x)"

text \<open>\<^verbatim>\<open>std::to_string\<close> of an \<^verbatim>\<open>int\<close>: decimal digits, with a minus sign when negative.\<close>

fun digits :: "nat \<Rightarrow> string" where
  "digits n =
     (if n < 10 then [''0123456789'' ! n]
      else digits (n div 10) @ [''0123456789'' ! (n mod 10)])"

declare digits.simps [simp del]

definition to_string :: "int \<Rightarrow> string" where
  "to_string i = (if i < 0 then ''-'' @ digits (nat (- i)) else digits (nat i))"

record Parser =
  m_tokens :: "Token list"
  m_positionP :: nat

definition Parser :: "Token list \<Rightarrow> Parser" where
  "Parser tokens = \<lparr>m_tokens = tokens, m_positionP = 0\<rparr>"

definition currentP :: "Parser \<Rightarrow> Token result" where
  "currentP p =
     (if m_positionP p < length (m_tokens p) then ok (m_tokens p ! m_positionP p)
      else throw undefined_behaviour)"

text \<open>
  \<^verbatim>\<open>if (m_position < m_tokens.size() - 1) m_position++\<close>: on an empty vector the
  unsigned \<^verbatim>\<open>size() - 1\<close> is the largest \<^verbatim>\<open>size_t\<close> and the comparison holds.
\<close>

definition advanceP :: "Parser \<Rightarrow> Parser" where
  "advanceP p =
     (if length (m_tokens p) = 0 \<or> m_positionP p < length (m_tokens p) - 1
      then p\<lparr>m_positionP := m_positionP p + 1\<rparr> else p)"

definition matchP :: "Parser \<Rightarrow> TokenType \<Rightarrow> (bool \<times> Parser) result" where
  "matchP p type =
     andThen (currentP p) (\<lambda>tok.
       if tok_type tok = type then ok (True, advanceP p) else ok (False, p))"

definition expectP :: "Parser \<Rightarrow> TokenType \<Rightarrow> string \<Rightarrow> Parser result" where
  "expectP p type message =
     andThen (matchP p type) (\<lambda>(matched, p1).
       if \<not> matched then
         andThen (currentP p1) (\<lambda>tok.
           throw (runtime_error (message @ '' at line '' @ to_string (tok_line tok))))
       else ok p1)"

definition parseType :: "Parser \<Rightarrow> (Type \<times> Parser) result" where
  "parseType p =
     andThen (currentP p) (\<lambda>tok.
       let t = tok_type tok; p1 = advanceP p in
       if t = TokenType.Entjera then ok (make_Type TypeKind.Entjera, p1)
       else if t = TokenType.Reala then ok (make_Type TypeKind.Reala, p1)
       else if t = TokenType.Teksta then ok (make_Type TypeKind.Teksta, p1)
       else if t = TokenType.Bulea then ok (make_Type TypeKind.Bulea, p1)
       else if t = TokenType.Funkcia then ok (make_Type TypeKind.Funkcia, p1)
       else throw (runtime_error ''Expected type''))"

text \<open>The message texts that contain a quote character.\<close>

definition quoted :: "string \<Rightarrow> string" where
  "quoted s = [CHR 0x27] @ s @ [CHR 0x27]"

text \<open>The operator of a token type, for the three loops over binary operators.\<close>

definition mulOp :: "TokenType \<Rightarrow> OpType option" where
  "mulOp t = (if t = TokenType.Multiply \<or> t = TokenType.Divide
              then Some (if t = TokenType.Multiply then OpType.Mul else OpType.Div) else None)"

definition addOp :: "TokenType \<Rightarrow> OpType option" where
  "addOp t = (if t = TokenType.Plus \<or> t = TokenType.Minus
              then Some (if t = TokenType.Plus then OpType.Add else OpType.Sub) else None)"

definition cmpOp :: "TokenType \<Rightarrow> OpType option" where
  "cmpOp t =
     (if t = TokenType.Less \<or> t = TokenType.Greater \<or> t = TokenType.LessEqual
         \<or> t = TokenType.GreaterEqual \<or> t = TokenType.Equal \<or> t = TokenType.NotEqual
      then Some (if t = TokenType.Less then OpType.LT
                 else if t = TokenType.Greater then OpType.GT
                 else if t = TokenType.LessEqual then OpType.LE
                 else if t = TokenType.GreaterEqual then OpType.GE
                 else if t = TokenType.Equal then OpType.Eq
                 else OpType.NEq)
      else None)"

text \<open>
  The grammar functions. \<open>stod\<close> stands for \<^verbatim>\<open>std::stod\<close> of the C++ library, which either
  returns a \<^verbatim>\<open>double\<close> or throws; the second argument is the bound on the depth. The cursor is
  the argument of the function each equation returns. Where the source tests \<^verbatim>\<open>match\<close> in an
  \<^verbatim>\<open>if\<close> chain, a failed \<^verbatim>\<open>match\<close> leaves the cursor where it was. \<^verbatim>\<open>parseBody\<close> is the loop
  \<^verbatim>\<open>while (!match(RBrace)) body.push_back(parseStatement())\<close> that five places of the source
  share, and the three \<^verbatim>\<open>...Loop\<close> functions are the \<^verbatim>\<open>while\<close> loops over binary operators, with
  the expression built so far. In \<^verbatim>\<open>parseStatement\<close> the \<^verbatim>\<open>dynamic_pointer_cast<VarRefNode>\<close> is
  the \<open>case\<close> on the expression.
\<close>

fun parseStatement :: "(string \<Rightarrow> error + 'd) \<Rightarrow> nat \<Rightarrow> Parser \<Rightarrow> ('d ASTNode \<times> Parser) result"
and parseBody :: "(string \<Rightarrow> error + 'd) \<Rightarrow> nat \<Rightarrow> 'd ASTNode list \<Rightarrow> Parser \<Rightarrow> ('d ASTNode list \<times> Parser) result"
and parsePrimary :: "(string \<Rightarrow> error + 'd) \<Rightarrow> nat \<Rightarrow> Parser \<Rightarrow> ('d ExprNode \<times> Parser) result"
and parsePostfix :: "(string \<Rightarrow> error + 'd) \<Rightarrow> nat \<Rightarrow> Parser \<Rightarrow> ('d ExprNode \<times> Parser) result"
and parsePostfixLoop :: "(string \<Rightarrow> error + 'd) \<Rightarrow> nat \<Rightarrow> 'd ExprNode \<Rightarrow> Parser \<Rightarrow> ('d ExprNode \<times> Parser) result"
and parseMultiplicative :: "(string \<Rightarrow> error + 'd) \<Rightarrow> nat \<Rightarrow> Parser \<Rightarrow> ('d ExprNode \<times> Parser) result"
and parseMultiplicativeLoop :: "(string \<Rightarrow> error + 'd) \<Rightarrow> nat \<Rightarrow> 'd ExprNode \<Rightarrow> Parser \<Rightarrow> ('d ExprNode \<times> Parser) result"
and parseAdditive :: "(string \<Rightarrow> error + 'd) \<Rightarrow> nat \<Rightarrow> Parser \<Rightarrow> ('d ExprNode \<times> Parser) result"
and parseAdditiveLoop :: "(string \<Rightarrow> error + 'd) \<Rightarrow> nat \<Rightarrow> 'd ExprNode \<Rightarrow> Parser \<Rightarrow> ('d ExprNode \<times> Parser) result"
and parseComparison :: "(string \<Rightarrow> error + 'd) \<Rightarrow> nat \<Rightarrow> Parser \<Rightarrow> ('d ExprNode \<times> Parser) result"
and parseComparisonLoop :: "(string \<Rightarrow> error + 'd) \<Rightarrow> nat \<Rightarrow> 'd ExprNode \<Rightarrow> Parser \<Rightarrow> ('d ExprNode \<times> Parser) result"
and parseExpression :: "(string \<Rightarrow> error + 'd) \<Rightarrow> nat \<Rightarrow> Parser \<Rightarrow> ('d ExprNode \<times> Parser) result"
where
  "parseStatement stod 0 = (\<lambda>p. None)"
| "parseStatement stod (Suc n) = (\<lambda>p.
     andThen (currentP p) (\<lambda>tok.
     let type = tok_type tok in
     if type = TokenType.Entjera \<or> type = TokenType.Reala \<or> type = TokenType.Teksta
        \<or> type = TokenType.Bulea \<or> type = TokenType.Funkcia then
       andThen (parseType p) (\<lambda>(typeVariable, p1).
       andThen (currentP p1) (\<lambda>tok1.
       let name = tok_value tok1 in
       andThen (expectP p1 TokenType.Identifier ''Expected variable name'') (\<lambda>p2.
       andThen (matchP p2 TokenType.Assign) (\<lambda>(assign, p3).
       andThen (if assign
                then andThen (parseExpression stod n p3) (\<lambda>(e, p4). ok (Some e, p4))
                else ok (None, p3)) (\<lambda>(init, p4).
       andThen (expectP p4 TokenType.Semicolon (''Expected '' @ quoted '';'')) (\<lambda>p5.
       ok (VarDeclNode name typeVariable init, p5)))))))
     else
     andThen (matchP p TokenType.Funkcio) (\<lambda>(funkcio, p1).
     if funkcio then
       andThen (currentP p1) (\<lambda>tok1.
       let name = tok_value tok1 in
       andThen (expectP p1 TokenType.Identifier ''Expected function name'') (\<lambda>p2.
       andThen (expectP p2 TokenType.LParen (''Expected '' @ quoted ''('')) (\<lambda>p3.
       andThen (parseType p3) (\<lambda>(paramType, p4).
       andThen (currentP p4) (\<lambda>tok4.
       let paramName = tok_value tok4 in
       andThen (expectP p4 TokenType.Identifier ''Expected parameter name'') (\<lambda>p5.
       andThen (expectP p5 TokenType.RParen (''Expected '' @ quoted '')'')) (\<lambda>p6.
       andThen (parseType p6) (\<lambda>(returnType, p7).
       andThen (expectP p7 TokenType.LBrace (''Expected '' @ quoted ''{'')) (\<lambda>p8.
       andThen (parseBody stod n [] p8) (\<lambda>(body, p9).
       ok (FunctionDeclNode name paramName paramType returnType body, p9)))))))))))
     else
     andThen (matchP p1 TokenType.Reveni) (\<lambda>(reveni, p2).
     if reveni then
       andThen (parseExpression stod n p2) (\<lambda>(val, p3).
       andThen (expectP p3 TokenType.Semicolon (''Expected '' @ quoted '';'')) (\<lambda>p4.
       ok (ReturnNode val, p4)))
     else
     andThen (matchP p2 TokenType.Se) (\<lambda>(se, p3).
     if se then
       andThen (expectP p3 TokenType.LParen (''Expected '' @ quoted ''('')) (\<lambda>p4.
       andThen (parseExpression stod n p4) (\<lambda>(condition, p5).
       andThen (expectP p5 TokenType.RParen (''Expected '' @ quoted '')'')) (\<lambda>p6.
       andThen (expectP p6 TokenType.LBrace (''Expected '' @ quoted ''{'')) (\<lambda>p7.
       andThen (parseBody stod n [] p7) (\<lambda>(thenBody, p8).
       andThen (matchP p8 TokenType.Alie) (\<lambda>(alie, p9).
       if alie then
         andThen (expectP p9 TokenType.LBrace (''Expected '' @ quoted ''{'')) (\<lambda>p10.
         andThen (parseBody stod n [] p10) (\<lambda>(elseBody, p11).
         ok (IfNode condition thenBody elseBody, p11)))
       else ok (IfNode condition thenBody [], p9)))))))
     else
     andThen (matchP p3 TokenType.Dum) (\<lambda>(dum, p4).
     if dum then
       andThen (expectP p4 TokenType.LParen (''Expected '' @ quoted ''('')) (\<lambda>p5.
       andThen (parseExpression stod n p5) (\<lambda>(condition, p6).
       andThen (expectP p6 TokenType.RParen (''Expected '' @ quoted '')'')) (\<lambda>p7.
       andThen (expectP p7 TokenType.LBrace (''Expected '' @ [CHR 0x27] @ ''{'')) (\<lambda>p8.
       andThen (parseBody stod n [] p8) (\<lambda>(body, p9).
       ok (WhileNode condition body, p9))))))
     else
     andThen (parseExpression stod n p4) (\<lambda>(expr, p5).
     andThen (case expr of
                VarRefNode name \<Rightarrow>
                  andThen (matchP p5 TokenType.Assign) (\<lambda>(assign, p6).
                  if assign then
                    andThen (parseExpression stod n p6) (\<lambda>(val, p7).
                    andThen (expectP p7 TokenType.Semicolon (''Expected '' @ quoted '';'')) (\<lambda>p8.
                    ok (Some (AssignNode name val), p8)))
                  else ok (None, p6))
              | _ \<Rightarrow> ok (None, p5)) (\<lambda>(assigned, p6).
     case assigned of
       Some node \<Rightarrow> ok (node, p6)
     | None \<Rightarrow>
         andThen (expectP p6 TokenType.Semicolon (''Expected '' @ quoted '';'')) (\<lambda>p7.
         ok (Expr expr, p7))))))))))"
| "parseBody stod 0 = (\<lambda>body p. None)"
| "parseBody stod (Suc n) = (\<lambda>body p.
     andThen (matchP p TokenType.RBrace) (\<lambda>(closed, p1).
     if \<not> closed then
       andThen (parseStatement stod n p1) (\<lambda>(stmt, p2).
       parseBody stod n (body @ [stmt]) p2)
     else ok (body, p1)))"
| "parsePrimary stod 0 = (\<lambda>p. None)"
| "parsePrimary stod (Suc n) = (\<lambda>p.
     andThen (currentP p) (\<lambda>tok.
     let type = tok_type tok in
     if type = TokenType.Number then
       (case stod (tok_value tok) of
          Inl e \<Rightarrow> throw e
        | Inr val \<Rightarrow>
            let isInt = (CHR ''.'' \<in> set (tok_value tok))
            in ok (NumberLiteral val isInt, advanceP p))
     else if type = TokenType.String then ok (StringLiteral (tok_value tok), advanceP p)
     else if type = TokenType.Vero then ok (BoolLiteral True, advanceP p)
     else if type = TokenType.Malvero then ok (BoolLiteral False, advanceP p)
     else
     andThen (matchP p TokenType.At) (\<lambda>(atSign, p1).
     if atSign then
       andThen (expectP p1 TokenType.LParen
                  (''Expected '' @ quoted ''('' @ '' after '' @ quoted ''@'')) (\<lambda>p2.
       andThen (parseType p2) (\<lambda>(paramType, p3).
       andThen (currentP p3) (\<lambda>tok3.
       let paramName = tok_value tok3 in
       andThen (expectP p3 TokenType.Identifier ''Expected parameter name'') (\<lambda>p4.
       andThen (expectP p4 TokenType.RParen (''Expected '' @ quoted '')'')) (\<lambda>p5.
       andThen (parseType p5) (\<lambda>(returnType, p6).
       andThen (expectP p6 TokenType.LBrace (''Expected '' @ quoted ''{'')) (\<lambda>p7.
       andThen (parseBody stod n [] p7) (\<lambda>(body, p8).
       ok (AtFunctionNode paramName paramType returnType body, p8)))))))))
     else
     andThen (matchP p1 TokenType.LParen) (\<lambda>(lparen, p2).
     if lparen then
       andThen (parseExpression stod n p2) (\<lambda>(expr, p3).
       andThen (expectP p3 TokenType.RParen (''Expected '' @ quoted '')'')) (\<lambda>p4.
       ok (expr, p4)))
     else if type = TokenType.Identifier \<or> type = TokenType.Tiu then
       andThen (currentP p2) (\<lambda>tok2. ok (VarRefNode (tok_value tok2), advanceP p2))
     else throw (runtime_error ''Unexpected token in expression'')))))"
| "parsePostfix stod 0 = (\<lambda>p. None)"
| "parsePostfix stod (Suc n) = (\<lambda>p.
     andThen (parsePrimary stod n p) (\<lambda>(expr, p1). parsePostfixLoop stod n expr p1))"
| "parsePostfixLoop stod 0 = (\<lambda>expr p. None)"
| "parsePostfixLoop stod (Suc n) = (\<lambda>expr p.
     andThen (matchP p TokenType.LParen) (\<lambda>(lparen, p1).
     if lparen then
       andThen (parseExpression stod n p1) (\<lambda>(arg, p2).
       andThen (expectP p2 TokenType.RParen (''Expected '' @ quoted '')'')) (\<lambda>p3.
       parsePostfixLoop stod n (CallNode expr arg) p3))
     else
     andThen (matchP p1 TokenType.Dot) (\<lambda>(dot, p2).
     if dot then
       andThen (currentP p2) (\<lambda>tok2.
       let member = tok_value tok2 in
       andThen (expectP p2 TokenType.Identifier ''Expected member name'') (\<lambda>p3.
       parsePostfixLoop stod n (MemberAccessNode expr member) p3))
     else ok (expr, p2))))"
| "parseMultiplicative stod 0 = (\<lambda>p. None)"
| "parseMultiplicative stod (Suc n) = (\<lambda>p.
     andThen (parsePostfix stod n p) (\<lambda>(left, p1). parseMultiplicativeLoop stod n left p1))"
| "parseMultiplicativeLoop stod 0 = (\<lambda>left p. None)"
| "parseMultiplicativeLoop stod (Suc n) = (\<lambda>left p.
     andThen (currentP p) (\<lambda>tok.
     case mulOp (tok_type tok) of
       Some op \<Rightarrow>
         andThen (parsePostfix stod n (advanceP p)) (\<lambda>(right, p1).
         parseMultiplicativeLoop stod n (BinaryOpNode op left right) p1)
     | None \<Rightarrow> ok (left, p)))"
| "parseAdditive stod 0 = (\<lambda>p. None)"
| "parseAdditive stod (Suc n) = (\<lambda>p.
     andThen (parseMultiplicative stod n p) (\<lambda>(left, p1). parseAdditiveLoop stod n left p1))"
| "parseAdditiveLoop stod 0 = (\<lambda>left p. None)"
| "parseAdditiveLoop stod (Suc n) = (\<lambda>left p.
     andThen (currentP p) (\<lambda>tok.
     case addOp (tok_type tok) of
       Some op \<Rightarrow>
         andThen (parseMultiplicative stod n (advanceP p)) (\<lambda>(right, p1).
         parseAdditiveLoop stod n (BinaryOpNode op left right) p1)
     | None \<Rightarrow> ok (left, p)))"
| "parseComparison stod 0 = (\<lambda>p. None)"
| "parseComparison stod (Suc n) = (\<lambda>p.
     andThen (parseAdditive stod n p) (\<lambda>(left, p1). parseComparisonLoop stod n left p1))"
| "parseComparisonLoop stod 0 = (\<lambda>left p. None)"
| "parseComparisonLoop stod (Suc n) = (\<lambda>left p.
     andThen (currentP p) (\<lambda>tok.
     case cmpOp (tok_type tok) of
       Some op \<Rightarrow>
         andThen (parseAdditive stod n (advanceP p)) (\<lambda>(right, p1).
         parseComparisonLoop stod n (BinaryOpNode op left right) p1)
     | None \<Rightarrow> ok (left, p)))"
| "parseExpression stod 0 = (\<lambda>p. None)"
| "parseExpression stod (Suc n) = (\<lambda>p. parseComparison stod n p)"


text \<open>
  \<^verbatim>\<open>parse()\<close>: the loop that pushes statements until the end-of-file token.
\<close>

fun parseLoop :: "(string \<Rightarrow> error + 'd) \<Rightarrow> nat \<Rightarrow> 'd ASTNode list \<Rightarrow> Parser \<Rightarrow> 'd ProgramNode result" where
  "parseLoop stod 0 = (\<lambda>statements p. None)"
| "parseLoop stod (Suc n) = (\<lambda>statements p.
     andThen (currentP p) (\<lambda>tok.
     if tok_type tok \<noteq> TokenType.EndOfFile then
       andThen (parseStatement stod n p) (\<lambda>(stmt, p1).
       parseLoop stod n (statements @ [stmt]) p1)
     else ok (ProgramNode statements)))"

definition parse :: "(string \<Rightarrow> error + 'd) \<Rightarrow> nat \<Rightarrow> Token list \<Rightarrow> 'd ProgramNode result" where
  "parse stod n tokens = parseLoop stod n [] (Parser tokens)"

text \<open>
  A stand-in for \<^verbatim>\<open>std::stod\<close> on the texts that \<^verbatim>\<open>readNumber\<close> produces, digits with at most one
  \<open>.\<close> after the first digit: the number that the longest such prefix denotes. The rounding
  to a \<^verbatim>\<open>double\<close> is not modelled (an integer below \<open>2^53\<close> is held exactly), nor are the
  other forms that \<^verbatim>\<open>std::stod\<close> reads (white space, signs, exponents, hexadecimal, infinities).
  It instantiates \<open>stod\<close> where a theorem evaluates the parser on a concrete text.
\<close>

definition digitValue :: "char \<Rightarrow> nat" where
  "digitValue c = length (takeWhile (\<lambda>d. d \<noteq> c) ''0123456789'')"

definition decimal :: "string \<Rightarrow> nat" where
  "decimal ds = foldl (\<lambda>a c. 10 * a + digitValue c) 0 ds"

definition stod_decimal :: "string \<Rightarrow> error + rat" where
  "stod_decimal s =
     (let whole = takeWhile isdigit s; rest = dropWhile isdigit s in
      if whole = [] then Inl invalid_argument
      else if rest \<noteq> [] \<and> hd rest = CHR ''.'' then
        (let frac = takeWhile isdigit (tl rest)
         in Inr (of_nat (decimal (whole @ frac)) / 10 ^ length frac))
      else Inr (of_nat (decimal whole)))"

text \<open>
  The order in which the results under two bounds on the depth are compared: the second
  call returns or throws whatever the first does, when the first is within its bound.
\<close>

definition returnsMore :: "'a result \<Rightarrow> 'a result \<Rightarrow> bool" where
  "returnsMore r r' = (r = None \<or> r' = r)"

section \<open>Trees without class declarations\<close>

text \<open>
  Whether a \<^verbatim>\<open>ClassDeclNode\<close> occurs in an expression, in a statement, in a program: in the
  node itself or in any node below it.
\<close>

fun containsClassDeclE :: "'d ExprNode \<Rightarrow> bool"
and containsClassDecl :: "'d ASTNode \<Rightarrow> bool" where
  "containsClassDeclE (NumberLiteral v isInt) = False"
| "containsClassDeclE (StringLiteral v) = False"
| "containsClassDeclE (BoolLiteral v) = False"
| "containsClassDeclE (VarRefNode name) = False"
| "containsClassDeclE (BinaryOpNode op left right) =
     (containsClassDeclE left \<or> containsClassDeclE right)"
| "containsClassDeclE (CallNode function argument) =
     (containsClassDeclE function \<or> containsClassDeclE argument)"
| "containsClassDeclE (AtFunctionNode param pType rType body) =
     list_ex containsClassDecl body"
| "containsClassDeclE (MemberAccessNode object member) = containsClassDeclE object"
| "containsClassDecl (Expr e) = containsClassDeclE e"
| "containsClassDecl (VarDeclNode name type init) =
     (case init of None \<Rightarrow> False | Some e \<Rightarrow> containsClassDeclE e)"
| "containsClassDecl (AssignNode name val) = containsClassDeclE val"
| "containsClassDecl (FunctionDeclNode name param pType rType body) =
     list_ex containsClassDecl body"
| "containsClassDecl (ReturnNode val) = containsClassDeclE val"
| "containsClassDecl (IfNode condition thenBody elseBody) =
     (containsClassDeclE condition \<or> list_ex containsClassDecl thenBody
      \<or> list_ex containsClassDecl elseBody)"
| "containsClassDecl (WhileNode condition body) =
     (containsClassDeclE condition \<or> list_ex containsClassDecl body)"
| "containsClassDecl (ClassDeclNode name fs ms) = True"

fun programContainsClassDecl :: "'d ProgramNode \<Rightarrow> bool" where
  "programContainsClassDecl (ProgramNode statements) = list_ex containsClassDecl statements"

text \<open>
  The token types on which \<^verbatim>\<open>parsePrimary\<close> does not throw at once: those that start an
  expression.
\<close>

definition expressionStart :: "TokenType \<Rightarrow> bool" where
  "expressionStart t =
     (t \<in> set [TokenType.Number, TokenType.String, TokenType.Vero, TokenType.Malvero,
               TokenType.At, TokenType.LParen, TokenType.Identifier, TokenType.Tiu])"

text \<open>
  A run of operator tokens and operands, as one of the three loops over binary operators reads
  it: from the cursor \<open>p\<close>, each pair is read when the current token is an operator of the
  level (\<open>opOf\<close> gives its operator) and the operand function, called after that token, returns
  the operand of the pair. The value is the cursor after the last operand, and \<open>None\<close> when the
  tokens are not such a run.
\<close>

fun afterOperands ::
  "(Parser \<Rightarrow> ('d ExprNode \<times> Parser) result) \<Rightarrow> (TokenType \<Rightarrow> OpType option) \<Rightarrow> Parser
     \<Rightarrow> (OpType \<times> 'd ExprNode) list \<Rightarrow> Parser option" where
  "afterOperands operand opOf p [] = Some p"
| "afterOperands operand opOf p ((op, right) # rest) =
     (case currentP p of
        Some (Inr tok) \<Rightarrow>
          (if opOf (tok_type tok) = Some op then
             (case operand (advanceP p) of
                Some (Inr (r, p1)) \<Rightarrow>
                  (if r = right then afterOperands operand opOf p1 rest else None)
              | _ \<Rightarrow> None)
           else None)
      | _ \<Rightarrow> None)"

text \<open>
  The tree that nests binary operations to the left: the first operand and the first pair make
  the left operand of the second pair's operation, and so on.
\<close>

definition leftNested :: "'d ExprNode \<Rightarrow> (OpType \<times> 'd ExprNode) list \<Rightarrow> 'd ExprNode" where
  "leftNested first rest = foldl (\<lambda>left (op, right). BinaryOpNode op left right) first rest"

section \<open>Lemmas about the tokenizer\<close>

text \<open>The tokens that one iteration appends do not depend on the tokens read before.\<close>

lemma tokenizeStep_append:
  "tokenizeStep tokens t = (tokens @ fst (tokenizeStep [] t), snd (tokenizeStep [] t))"
  by (simp add: tokenizeStep_def Let_def split: prod.splits bool.splits)

lemma tokenizeStep_measure:
  assumes "current t \<noteq> CHR 0x00" and "tokenizeStep tokens t = (tokens', t')"
  shows "length (m_source t') - m_position t' < length (m_source t) - m_position t"
  using tokenizeStep_cursor [OF assms(2)] current_in_range [OF assms(1)] by auto

lemma tokenizeLoop_append:
  "tokenizeLoop tokens t = (tokens @ fst (tokenizeLoop [] t), snd (tokenizeLoop [] t))"
proof (induction "length (m_source t) - m_position t" arbitrary: t tokens rule: less_induct)
  case less
  show ?case
  proof (cases "current t \<noteq> CHR 0x00")
    case True
    obtain new t' where s: "tokenizeStep [] t = (new, t')" by (cases "tokenizeStep [] t")
    then have s': "tokenizeStep tokens t = (tokens @ new, t')"
      using tokenizeStep_append [of tokens t] by simp
    have a: "tokenizeLoop tokens t = tokenizeLoop (tokens @ new) t'"
      using True s' by (subst tokenizeLoop.simps) simp
    have b: "tokenizeLoop [] t = tokenizeLoop new t'"
      using True s by (subst tokenizeLoop.simps) simp
    note m = tokenizeStep_measure [OF True s]
    from less [OF m, of "tokens @ new"] less [OF m, of new] a b show ?thesis by simp
  next
    case False
    then show ?thesis by (simp add: tokenizeLoop.simps)
  qed
qed

lemma Id2TokenType_not_EndOfFile:
  "map_of Id2TokenType ident = Some k \<Longrightarrow> k \<noteq> TokenType.EndOfFile"
  by (auto simp: Id2TokenType_def split: if_splits)

lemma readNumber_type: "readNumber t = (tok, t') \<Longrightarrow> tok_type tok = TokenType.Number"
  by (auto simp: readNumber_def Let_def split: prod.splits)

lemma readString_type: "readString t = (tok, t') \<Longrightarrow> tok_type tok = TokenType.String"
  by (auto simp: readString_def Let_def split: prod.splits)

lemma readIdentifier_type:
  "readIdentifier t = (tok, t') \<Longrightarrow> tok_type tok \<noteq> TokenType.EndOfFile"
  by (auto simp: readIdentifier_def Let_def dest: Id2TokenType_not_EndOfFile
           split: prod.splits option.splits)

lemma switchCurrent_type: "switchCurrent t = (type, v, t') \<Longrightarrow> type \<noteq> TokenType.EndOfFile"
  by (auto simp: switchCurrent_def Let_def split: if_splits)

lemma tokenizeStep_types:
  assumes "tokenizeStep [] t = (new, t')"
  shows "\<forall>tok\<in>set new. tok_type tok \<noteq> TokenType.EndOfFile"
  using assms
  by (auto simp: tokenizeStep_def Let_def
           dest: readNumber_type readString_type readIdentifier_type switchCurrent_type
           split: prod.splits bool.splits if_splits)

lemma tokenizeLoop_shape:
  "\<exists>body. fst (tokenizeLoop [] t) =
            body @ [Token TokenType.EndOfFile []
                      (m_line (snd (tokenizeLoop [] t))) (m_column (snd (tokenizeLoop [] t)))]
          \<and> (\<forall>tok\<in>set body. tok_type tok \<noteq> TokenType.EndOfFile)"
proof (induction "length (m_source t) - m_position t" arbitrary: t rule: less_induct)
  case less
  show ?case
  proof (cases "current t \<noteq> CHR 0x00")
    case True
    obtain new t' where s: "tokenizeStep [] t = (new, t')" by (cases "tokenizeStep [] t")
    have "tokenizeLoop [] t = tokenizeLoop new t'"
      using True s by (subst tokenizeLoop.simps) simp
    then have b: "tokenizeLoop [] t = (new @ fst (tokenizeLoop [] t'), snd (tokenizeLoop [] t'))"
      using tokenizeLoop_append [of new t'] by simp
    from less [OF tokenizeStep_measure [OF True s]] obtain body where
      body: "fst (tokenizeLoop [] t') =
               body @ [Token TokenType.EndOfFile []
                         (m_line (snd (tokenizeLoop [] t'))) (m_column (snd (tokenizeLoop [] t')))]"
      and types: "\<forall>tok\<in>set body. tok_type tok \<noteq> TokenType.EndOfFile"
      by blast
    from b body types tokenizeStep_types [OF s] show ?thesis
      by (intro exI [of _ "new @ body"]) auto
  next
    case False
    then show ?thesis by (simp add: tokenizeLoop.simps)
  qed
qed

lemma tokenizeBounded_returns:
  "length (m_source t) - m_position t < n \<Longrightarrow>
     tokenizeBounded n tokens t = Some (tokenizeLoop tokens t)"
proof (induction n arbitrary: tokens t)
  case 0
  then show ?case by simp
next
  case (Suc n)
  show ?case
  proof (cases "current t \<noteq> CHR 0x00")
    case True
    obtain tokens' t' where s: "tokenizeStep tokens t = (tokens', t')"
      by (cases "tokenizeStep tokens t")
    from tokenizeStep_measure [OF True s] Suc.prems
    have "length (m_source t') - m_position t' < n" by simp
    from Suc.IH [OF this, of tokens'] True s show ?thesis
      by (simp add: tokenizeLoop.simps [of tokens t])
  next
    case False
    then show ?thesis by (simp add: tokenizeLoop.simps [of tokens t])
  qed
qed

lemma skipWhitespaceLoop_stops:
  "skipWhitespaceLoop b t = (b', t') \<Longrightarrow> \<not> isspace (current t')"
proof (induction b t rule: skipWhitespaceLoop.induct)
  case (1 isWhitespace t)
  show ?case
  proof (cases "isspace (current t)")
    case True
    with "1.prems" have "skipWhitespaceLoop True (advance t) = (b', t')"
      by (subst (asm) skipWhitespaceLoop.simps) simp
    from "1.IH" [OF True this] show ?thesis .
  next
    case False
    with "1.prems" show ?thesis
      by (subst (asm) skipWhitespaceLoop.simps) auto
  qed
qed

lemma skipWhitespaceLoop_flag:
  "isspace (current t) \<Longrightarrow> fst (skipWhitespaceLoop b t) = True"
proof -
  assume sp: "isspace (current t)"
  obtain b' t' where r: "skipWhitespaceLoop True (advance t) = (b', t')"
    by (cases "skipWhitespaceLoop True (advance t)")
  from skipWhitespaceLoop_cursor [OF r] have "b'" by simp
  with sp r show ?thesis by (subst skipWhitespaceLoop.simps) simp
qed

lemma tokenize_whitespace:
  assumes "\<forall>c\<in>set src. isspace c"
  shows "\<exists>t. tokenizeLoop [] (Tokenizer src) =
           ([Token TokenType.EndOfFile [] (m_line t) (m_column t)], t)"
proof (cases "current (Tokenizer src) \<noteq> CHR 0x00")
  case True
  let ?t = "Tokenizer src"
  from current_in_range [OF True] assms have sp: "isspace (current ?t)"
    by (auto simp: current_def Tokenizer_def)
  obtain b t1 where w: "skipWhitespace ?t = (b, t1)" by (cases "skipWhitespace ?t")
  with skipWhitespaceLoop_flag [OF sp, of False] have b: "b = True"
    by (simp add: skipWhitespace_def)
  from w skipWhitespaceLoop_stops [of False ?t b t1] have ns: "\<not> isspace (current t1)"
    by (simp add: skipWhitespace_def)
  from skipWhitespace_cursor [OF w] have src: "m_source t1 = src"
    by (simp add: Tokenizer_def)
  have z: "current t1 = CHR 0x00"
  proof (rule ccontr)
    assume nz: "current t1 \<noteq> CHR 0x00"
    from current_in_range [OF nz] src assms have "isspace (current t1)"
      by (auto simp: current_def)
    with ns show False by simp
  qed
  have step: "tokenizeStep [] ?t = ([], t1)"
    using w b by (simp add: tokenizeStep_def)
  have "tokenizeLoop [] ?t = tokenizeLoop [] t1"
    using True step by (subst tokenizeLoop.simps) simp
  also have "\<dots> = ([Token TokenType.EndOfFile [] (m_line t1) (m_column t1)], t1)"
    using z by (subst tokenizeLoop.simps) simp
  finally show ?thesis by blast
next
  case False
  then show ?thesis by (subst tokenizeLoop.simps) auto
qed

lemma tokenizeStep_unrecognized:
  assumes "unrecognized (current t)"
  shows "tokenizeStep tokens t =
           (tokens @ [Token TokenType.Unknown [current t] (m_line t) (m_column t)], advance t)"
proof -
  from assms have ns: "\<not> isspace (current t)" and nsl: "current t \<noteq> CHR ''/''"
    by (auto simp: unrecognized_def)
  have w: "skipWhitespace t = (False, t)"
    using ns by (simp add: skipWhitespace_def skipWhitespaceLoop.simps [of False t])
  have c: "skipComment t = (False, t)"
    using nsl by (simp add: skipComment_def)
  have s: "switchCurrent t = (TokenType.Unknown, [current t], t)"
    using assms by (simp add: unrecognized_def switchCurrent_def Let_def)
  from assms w c s show ?thesis
    by (simp add: tokenizeStep_def unrecognized_def)
qed

subsection \<open>A number with a second dot\<close>

lemma current_remaining:
  "current t = (case remaining t of [] \<Rightarrow> CHR 0x00 | c # cs \<Rightarrow> c)"
proof (cases "m_position t < length (m_source t)")
  case True
  then have "remaining t = m_source t ! m_position t # drop (Suc (m_position t)) (m_source t)"
    by (simp add: remaining_def Cons_nth_drop_Suc)
  with True show ?thesis by (simp add: current_def)
next
  case False
  then show ?thesis by (simp add: current_def remaining_def)
qed

lemma current_Cons: "remaining t = c # cs \<Longrightarrow> current t = c"
  by (simp add: current_remaining)

lemma remaining_advance: "remaining t = c # cs \<Longrightarrow> remaining (advance t) = cs"
  by (simp add: remaining_def drop_Suc) (metis drop_Suc list.sel(3) tl_drop)

lemma advance_same_line:
  "current t \<noteq> CHR 0x0A \<Longrightarrow>
     m_line (advance t) = m_line t \<and> m_column (advance t) = m_column t + 1"
  by (simp add: advance_def)

lemma isdigit_not_space: "isdigit c \<Longrightarrow> \<not> isspace c"
  by (auto simp: isdigit_def isspace_def)

lemma isdigit_not_newline: "isdigit c \<Longrightarrow> c \<noteq> CHR 0x0A"
  by (auto simp: isdigit_def)

lemma isdigit_not_slash: "isdigit c \<Longrightarrow> c \<noteq> CHR ''/''"
  by (auto simp: isdigit_def)

lemma readNumberLoop_digits:
  "remaining t = ds @ r \<Longrightarrow> \<forall>c\<in>set ds. isdigit c \<Longrightarrow>
     \<exists>t'. readNumberLoop number isFloat t = readNumberLoop (number @ ds) isFloat t'
        \<and> remaining t' = r \<and> m_line t' = m_line t
        \<and> m_column t' = m_column t + int (length ds)"
proof (induction ds arbitrary: number t)
  case Nil
  then show ?case by auto
next
  case (Cons d ds)
  from Cons.prems have c: "current t = d" and d: "isdigit d"
    by (simp_all add: current_Cons)
  from Cons.prems have r: "remaining (advance t) = ds @ r"
    by (simp add: remaining_advance)
  from d c have nl: "current t \<noteq> CHR 0x0A" and nd: "current t \<noteq> CHR ''.''"
    using isdigit_not_newline isdigit_not_dot by auto
  have u: "readNumberLoop number isFloat t = readNumberLoop (number @ [d]) isFloat (advance t)"
    using c d nd by (subst readNumberLoop.simps) simp
  from Cons.IH [OF r, of "number @ [d]"] Cons.prems(2) obtain t' where
    "readNumberLoop (number @ [d]) isFloat (advance t) =
       readNumberLoop ((number @ [d]) @ ds) isFloat t'"
    "remaining t' = r" "m_line t' = m_line (advance t)"
    "m_column t' = m_column (advance t) + int (length ds)"
    by auto
  with u advance_same_line [OF nl] show ?case
    by (intro exI [of _ t']) simp
qed

lemma readNumber_second_dot:
  assumes rem: "remaining t = ds1 @ ''.'' @ ds2 @ ''.'' @ rest"
    and d1: "\<forall>c\<in>set ds1. isdigit c" and d2: "\<forall>c\<in>set ds2. isdigit c"
  shows "\<exists>t'. readNumber t = (Token TokenType.Number (ds1 @ ''.'' @ ds2) (m_line t) (m_column t), t')
           \<and> remaining t' = ''.'' @ rest \<and> m_line t' = m_line t
           \<and> m_column t' = m_column t + int (length ds1 + length ds2 + 1)"
proof -
  from readNumberLoop_digits [OF rem d1, of "[]" False] obtain t1 where
    a: "readNumberLoop [] False t = readNumberLoop ds1 False t1"
    and r1: "remaining t1 = ''.'' @ ds2 @ ''.'' @ rest"
    and l1: "m_line t1 = m_line t" and c1: "m_column t1 = m_column t + int (length ds1)"
    by auto
  from r1 have cur1: "current t1 = CHR ''.''" by (simp add: current_Cons)
  have b: "readNumberLoop ds1 False t1 = readNumberLoop (ds1 @ ''.'') True (advance t1)"
    using cur1 by (subst readNumberLoop.simps) simp
  from r1 have r1': "remaining (advance t1) = ds2 @ ''.'' @ rest"
    by (simp add: remaining_advance)
  from cur1 have adv: "m_line (advance t1) = m_line t1" "m_column (advance t1) = m_column t1 + 1"
    using advance_same_line [of t1] by simp_all
  from readNumberLoop_digits [OF r1' d2, of "ds1 @ ''.''" True] obtain t2 where
    c: "readNumberLoop (ds1 @ ''.'') True (advance t1) = readNumberLoop ((ds1 @ ''.'') @ ds2) True t2"
    and r2: "remaining t2 = ''.'' @ rest"
    and l2: "m_line t2 = m_line (advance t1)"
    and c2: "m_column t2 = m_column (advance t1) + int (length ds2)"
    by auto
  from r2 have cur2: "current t2 = CHR ''.''" by (simp add: current_Cons)
  have d: "readNumberLoop ((ds1 @ ''.'') @ ds2) True t2 = ((ds1 @ ''.'') @ ds2, t2)"
    using cur2 by (subst readNumberLoop.simps) simp
  from a b c d have "readNumberLoop [] False t = (ds1 @ ''.'' @ ds2, t2)" by simp
  with r2 l1 l2 c1 c2 adv show ?thesis
    by (intro exI [of _ t2]) (simp add: readNumber_def)
qed

lemma tokenizeStep_number_second_dot:
  assumes rem: "remaining t = ds1 @ ''.'' @ ds2 @ ''.'' @ rest" and ne: "ds1 \<noteq> []"
    and d1: "\<forall>c\<in>set ds1. isdigit c" and d2: "\<forall>c\<in>set ds2. isdigit c"
  shows "\<exists>t'. tokenizeStep tokens t =
             (tokens @ [Token TokenType.Number (ds1 @ ''.'' @ ds2) (m_line t) (m_column t)], t')
           \<and> remaining t' = ''.'' @ rest \<and> m_line t' = m_line t
           \<and> m_column t' = m_column t + int (length ds1 + length ds2 + 1)"
proof -
  from ne obtain d ds where ds1: "ds1 = d # ds" by (cases ds1) auto
  with rem d1 have cur: "current t = d" and dig: "isdigit (current t)"
    by (simp_all add: current_Cons)
  have w: "skipWhitespace t = (False, t)"
    using isdigit_not_space [OF dig]
    by (simp add: skipWhitespace_def skipWhitespaceLoop.simps [of False t])
  have c: "skipComment t = (False, t)"
    using isdigit_not_slash [OF dig] by (simp add: skipComment_def)
  from readNumber_second_dot [OF rem d1 d2] obtain t' where
    "readNumber t = (Token TokenType.Number (ds1 @ ''.'' @ ds2) (m_line t) (m_column t), t')"
    "remaining t' = ''.'' @ rest" "m_line t' = m_line t"
    "m_column t' = m_column t + int (length ds1 + length ds2 + 1)"
    by blast
  with w c dig show ?thesis
    by (intro exI [of _ t']) (simp add: tokenizeStep_def)
qed

lemma tokenizeStep_dot:
  assumes "current t = CHR ''.''"
  shows "tokenizeStep tokens t =
           (tokens @ [Token TokenType.Dot ''.'' (m_line t) (m_column t)], advance t)"
proof -
  have w: "skipWhitespace t = (False, t)"
    using assms by (simp add: skipWhitespace_def skipWhitespaceLoop.simps [of False t] isspace_def)
  have c: "skipComment t = (False, t)"
    using assms by (simp add: skipComment_def)
  have s: "switchCurrent t = (TokenType.Dot, ''.'', t)"
    using assms by (simp add: switchCurrent_def)
  from assms w c s show ?thesis
    by (simp add: tokenizeStep_def isdigit_def isalpha_def)
qed

lemma tokenizeLoop_number_second_dot:
  assumes rem: "remaining t = ds1 @ ''.'' @ ds2 @ ''.'' @ rest" and ne: "ds1 \<noteq> []"
    and d1: "\<forall>c\<in>set ds1. isdigit c" and d2: "\<forall>c\<in>set ds2. isdigit c"
  shows "\<exists>more. fst (tokenizeLoop tokens t) =
           tokens @ Token TokenType.Number (ds1 @ ''.'' @ ds2) (m_line t) (m_column t)
                  # Token TokenType.Dot ''.'' (m_line t)
                      (m_column t + int (length ds1 + length ds2 + 1))
                  # more"
proof -
  let ?num = "Token TokenType.Number (ds1 @ ''.'' @ ds2) (m_line t) (m_column t)"
  let ?dot = "Token TokenType.Dot ''.'' (m_line t) (m_column t + int (length ds1 + length ds2 + 1))"
  from tokenizeStep_number_second_dot [OF rem ne d1 d2, of tokens] obtain t1 where
    s1: "tokenizeStep tokens t = (tokens @ [?num], t1)"
    and r1: "remaining t1 = ''.'' @ rest" and l1: "m_line t1 = m_line t"
    and c1: "m_column t1 = m_column t + int (length ds1 + length ds2 + 1)"
    by blast
  from ne obtain d ds where "ds1 = d # ds" by (cases ds1) auto
  with rem d1 have "isdigit (current t)" by (simp add: current_Cons)
  then have nz: "current t \<noteq> CHR 0x00" by (rule isdigit_not_nul)
  from r1 have cur1: "current t1 = CHR ''.''" by (simp add: current_Cons)
  have a: "tokenizeLoop tokens t = tokenizeLoop (tokens @ [?num]) t1"
    using nz s1 by (subst tokenizeLoop.simps) simp
  have b: "tokenizeLoop (tokens @ [?num]) t1 = tokenizeLoop ((tokens @ [?num]) @ [?dot]) (advance t1)"
    using cur1 tokenizeStep_dot [OF cur1, of "tokens @ [?num]"] l1 c1
    by (subst tokenizeLoop.simps) simp
  from a b tokenizeLoop_append [of "(tokens @ [?num]) @ [?dot]" "advance t1"]
  show ?thesis by simp
qed

section \<open>Lemmas about the parser\<close>

lemma andThen_okE:
  assumes "andThen m f = Some (Inr y)"
  obtains x where "m = Some (Inr x)" and "f x = Some (Inr y)"
  using assms by (auto simp: andThen_def split: option.splits sum.splits)

lemma ok_eq_ok [simp]: "(ok x = Some (Inr y)) = (x = y)"
  by (simp add: ok_def)

lemma throw_neq_ok [simp]: "throw e \<noteq> Some (Inr y)"
  by (simp add: throw_def)

lemma parsePrimary_no_class:
  assumes expr: "\<And>p e p'. parseExpression stod n p = Some (Inr (e, p')) \<Longrightarrow> \<not> containsClassDeclE e"
    and body: "\<And>p b p'. parseBody stod n [] p = Some (Inr (b, p')) \<Longrightarrow> \<not> list_ex containsClassDecl b"
    and ret: "parsePrimary stod (Suc n) p = Some (Inr (e, p'))"
  shows "\<not> containsClassDeclE e"
  using ret
  by (auto simp: Let_def elim!: andThen_okE split: if_splits sum.splits
           dest!: expr body)

lemma parseStatement_no_class:
  assumes expr: "\<And>p e p'. parseExpression stod n p = Some (Inr (e, p')) \<Longrightarrow> \<not> containsClassDeclE e"
    and body: "\<And>p b p'. parseBody stod n [] p = Some (Inr (b, p')) \<Longrightarrow> \<not> list_ex containsClassDecl b"
    and ret: "parseStatement stod (Suc n) p = Some (Inr (s, p'))"
  shows "\<not> containsClassDecl s"
  using ret
  by (auto simp: Let_def elim!: andThen_okE
           split: if_splits sum.splits option.splits ExprNode.splits
           dest!: expr body)


lemma parseBody_no_class:
  assumes stmt: "\<And>p s p'. parseStatement stod n p = Some (Inr (s, p')) \<Longrightarrow> \<not> containsClassDecl s"
    and loop: "\<And>body p b p'. parseBody stod n body p = Some (Inr (b, p')) \<Longrightarrow>
                 \<not> list_ex containsClassDecl body \<Longrightarrow> \<not> list_ex containsClassDecl b"
    and ret: "parseBody stod (Suc n) body p = Some (Inr (b, p'))"
    and clean: "\<not> list_ex containsClassDecl body"
  shows "\<not> list_ex containsClassDecl b"
proof -
  from ret obtain closed p1 where m: "matchP p TokenType.RBrace = Some (Inr (closed, p1))"
    and rest: "(if \<not> closed then
                 andThen (parseStatement stod n p1) (\<lambda>(stmt, p2). parseBody stod n (body @ [stmt]) p2)
               else ok (body, p1)) = Some (Inr (b, p'))"
    by (auto elim!: andThen_okE)
  show ?thesis
  proof (cases closed)
    case True
    with rest clean show ?thesis by simp
  next
    case False
    with rest obtain s p2 where s: "parseStatement stod n p1 = Some (Inr (s, p2))"
      and b: "parseBody stod n (body @ [s]) p2 = Some (Inr (b, p'))"
      by (auto elim!: andThen_okE)
    from stmt [OF s] clean have "\<not> list_ex containsClassDecl (body @ [s])" by simp
    from loop [OF b this] show ?thesis .
  qed
qed

lemma parsePostfixLoop_no_class:
  assumes expr: "\<And>p e p'. parseExpression stod n p = Some (Inr (e, p')) \<Longrightarrow> \<not> containsClassDeclE e"
    and loop: "\<And>l p e p'. parsePostfixLoop stod n l p = Some (Inr (e, p')) \<Longrightarrow>
                 \<not> containsClassDeclE l \<Longrightarrow> \<not> containsClassDeclE e"
    and ret: "parsePostfixLoop stod (Suc n) l p = Some (Inr (e, p'))"
    and clean: "\<not> containsClassDeclE l"
  shows "\<not> containsClassDeclE e"
proof -
  from ret obtain lparen p1 where "matchP p TokenType.LParen = Some (Inr (lparen, p1))"
    and rest: "(if lparen then
         andThen (parseExpression stod n p1) (\<lambda>(arg, p2).
         andThen (expectP p2 TokenType.RParen (''Expected '' @ quoted '')'')) (\<lambda>p3.
         parsePostfixLoop stod n (CallNode l arg) p3))
       else
       andThen (matchP p1 TokenType.Dot) (\<lambda>(dot, p2).
       if dot then
         andThen (currentP p2) (\<lambda>tok2.
         let member = tok_value tok2 in
         andThen (expectP p2 TokenType.Identifier ''Expected member name'') (\<lambda>p3.
         parsePostfixLoop stod n (MemberAccessNode l member) p3))
       else ok (l, p2))) = Some (Inr (e, p'))"
    by (auto elim!: andThen_okE)
  show ?thesis
  proof (cases lparen)
    case True
    with rest obtain arg p2 p3 where a: "parseExpression stod n p1 = Some (Inr (arg, p2))"
      and l: "parsePostfixLoop stod n (CallNode l arg) p3 = Some (Inr (e, p'))"
      by (auto elim!: andThen_okE)
    from expr [OF a] clean have "\<not> containsClassDeclE (CallNode l arg)" by simp
    from loop [OF l this] show ?thesis .
  next
    case False
    with rest obtain dot p2 where "matchP p1 TokenType.Dot = Some (Inr (dot, p2))"
      and rest2: "(if dot then
         andThen (currentP p2) (\<lambda>tok2.
         let member = tok_value tok2 in
         andThen (expectP p2 TokenType.Identifier ''Expected member name'') (\<lambda>p3.
         parsePostfixLoop stod n (MemberAccessNode l member) p3))
       else ok (l, p2)) = Some (Inr (e, p'))"
      by (auto elim!: andThen_okE)
    show ?thesis
    proof (cases dot)
      case True
      with rest2 obtain member p3 where
        l: "parsePostfixLoop stod n (MemberAccessNode l member) p3 = Some (Inr (e, p'))"
        by (auto simp: Let_def elim!: andThen_okE)
      from clean have "\<not> containsClassDeclE (MemberAccessNode l member)" by simp
      from loop [OF l this] show ?thesis .
    next
      case False
      with rest2 clean show ?thesis by simp
    qed
  qed
qed

lemma binaryLoop_no_class:
  assumes operand: "\<And>p e p'. operand p = Some (Inr (e, p')) \<Longrightarrow> \<not> containsClassDeclE e"
    and loop: "\<And>l p e p'. again l p = Some (Inr (e, p')) \<Longrightarrow>
                 \<not> containsClassDeclE l \<Longrightarrow> \<not> containsClassDeclE e"
    and ret: "andThen (currentP p) (\<lambda>tok.
                case opOf (tok_type tok) of
                  Some op \<Rightarrow> andThen (operand (advanceP p)) (\<lambda>(right, p1).
                               again (BinaryOpNode op l right) p1)
                | None \<Rightarrow> ok (l, p)) = Some (Inr (e, p'))"
    and clean: "\<not> containsClassDeclE l"
  shows "\<not> containsClassDeclE e"
proof -
  from ret obtain tok where "currentP p = Some (Inr tok)"
    and rest: "(case opOf (tok_type tok) of
                  Some op \<Rightarrow> andThen (operand (advanceP p)) (\<lambda>(right, p1).
                               again (BinaryOpNode op l right) p1)
                | None \<Rightarrow> ok (l, p)) = Some (Inr (e, p'))"
    by (auto elim!: andThen_okE)
  show ?thesis
  proof (cases "opOf (tok_type tok)")
    case None
    with rest clean show ?thesis by simp
  next
    case (Some op)
    with rest obtain right p1 where r: "operand (advanceP p) = Some (Inr (right, p1))"
      and l: "again (BinaryOpNode op l right) p1 = Some (Inr (e, p'))"
      by (auto elim!: andThen_okE)
    from operand [OF r] clean have "\<not> containsClassDeclE (BinaryOpNode op l right)" by simp
    from loop [OF l this] show ?thesis .
  qed
qed

lemma operandThenLoop_no_class:
  assumes operand: "\<And>p e p'. operand p = Some (Inr (e, p')) \<Longrightarrow> \<not> containsClassDeclE e"
    and loop: "\<And>l p e p'. again l p = Some (Inr (e, p')) \<Longrightarrow>
                 \<not> containsClassDeclE l \<Longrightarrow> \<not> containsClassDeclE e"
    and ret: "andThen (operand p) (\<lambda>(left, p1). again left p1) = Some (Inr (e, p'))"
  shows "\<not> containsClassDeclE e"
proof -
  from ret obtain left p1 where o: "operand p = Some (Inr (left, p1))"
    and l: "again left p1 = Some (Inr (e, p'))"
    by (auto elim!: andThen_okE)
  from loop [OF l operand [OF o]] show ?thesis .
qed

lemma no_class_all:
  "(\<forall>p s p'. parseStatement stod n p = Some (Inr (s, p')) \<longrightarrow> \<not> containsClassDecl s) \<and>
   (\<forall>body p b p'. parseBody stod n body p = Some (Inr (b, p')) \<longrightarrow>
      \<not> list_ex containsClassDecl body \<longrightarrow> \<not> list_ex containsClassDecl b) \<and>
   (\<forall>p e p'. parsePrimary stod n p = Some (Inr (e, p')) \<longrightarrow> \<not> containsClassDeclE e) \<and>
   (\<forall>p e p'. parsePostfix stod n p = Some (Inr (e, p')) \<longrightarrow> \<not> containsClassDeclE e) \<and>
   (\<forall>l p e p'. parsePostfixLoop stod n l p = Some (Inr (e, p')) \<longrightarrow>
      \<not> containsClassDeclE l \<longrightarrow> \<not> containsClassDeclE e) \<and>
   (\<forall>p e p'. parseMultiplicative stod n p = Some (Inr (e, p')) \<longrightarrow> \<not> containsClassDeclE e) \<and>
   (\<forall>l p e p'. parseMultiplicativeLoop stod n l p = Some (Inr (e, p')) \<longrightarrow>
      \<not> containsClassDeclE l \<longrightarrow> \<not> containsClassDeclE e) \<and>
   (\<forall>p e p'. parseAdditive stod n p = Some (Inr (e, p')) \<longrightarrow> \<not> containsClassDeclE e) \<and>
   (\<forall>l p e p'. parseAdditiveLoop stod n l p = Some (Inr (e, p')) \<longrightarrow>
      \<not> containsClassDeclE l \<longrightarrow> \<not> containsClassDeclE e) \<and>
   (\<forall>p e p'. parseComparison stod n p = Some (Inr (e, p')) \<longrightarrow> \<not> containsClassDeclE e) \<and>
   (\<forall>l p e p'. parseComparisonLoop stod n l p = Some (Inr (e, p')) \<longrightarrow>
      \<not> containsClassDeclE l \<longrightarrow> \<not> containsClassDeclE e) \<and>
   (\<forall>p e p'. parseExpression stod n p = Some (Inr (e, p')) \<longrightarrow> \<not> containsClassDeclE e)"
proof (induction n)
  case 0
  show ?case by simp
next
  case (Suc n)
  then have stmt': "\<forall>p s p'. parseStatement stod n p = Some (Inr (s, p')) \<longrightarrow> \<not> containsClassDecl s"
    and body': "\<forall>body p b p'. parseBody stod n body p = Some (Inr (b, p')) \<longrightarrow>
                 \<not> list_ex containsClassDecl body \<longrightarrow> \<not> list_ex containsClassDecl b"
    and prim': "\<forall>p e p'. parsePrimary stod n p = Some (Inr (e, p')) \<longrightarrow> \<not> containsClassDeclE e"
    and post': "\<forall>p e p'. parsePostfix stod n p = Some (Inr (e, p')) \<longrightarrow> \<not> containsClassDeclE e"
    and postL': "\<forall>l p e p'. parsePostfixLoop stod n l p = Some (Inr (e, p')) \<longrightarrow>
                 \<not> containsClassDeclE l \<longrightarrow> \<not> containsClassDeclE e"
    and mul': "\<forall>p e p'. parseMultiplicative stod n p = Some (Inr (e, p')) \<longrightarrow> \<not> containsClassDeclE e"
    and mulL': "\<forall>l p e p'. parseMultiplicativeLoop stod n l p = Some (Inr (e, p')) \<longrightarrow>
                 \<not> containsClassDeclE l \<longrightarrow> \<not> containsClassDeclE e"
    and add': "\<forall>p e p'. parseAdditive stod n p = Some (Inr (e, p')) \<longrightarrow> \<not> containsClassDeclE e"
    and addL': "\<forall>l p e p'. parseAdditiveLoop stod n l p = Some (Inr (e, p')) \<longrightarrow>
                 \<not> containsClassDeclE l \<longrightarrow> \<not> containsClassDeclE e"
    and cmp': "\<forall>p e p'. parseComparison stod n p = Some (Inr (e, p')) \<longrightarrow> \<not> containsClassDeclE e"
    and cmpL': "\<forall>l p e p'. parseComparisonLoop stod n l p = Some (Inr (e, p')) \<longrightarrow>
                 \<not> containsClassDeclE l \<longrightarrow> \<not> containsClassDeclE e"
    and expr': "\<forall>p e p'. parseExpression stod n p = Some (Inr (e, p')) \<longrightarrow> \<not> containsClassDeclE e"
    by simp_all
  note stmt = stmt' [rule_format] and body = body' [rule_format] and prim = prim' [rule_format]
    and post = post' [rule_format] and postL = postL' [rule_format] and mul = mul' [rule_format]
    and mulL = mulL' [rule_format] and add = add' [rule_format] and addL = addL' [rule_format]
    and cmp = cmp' [rule_format] and cmpL = cmpL' [rule_format] and expr = expr' [rule_format]
  have body0: "\<And>p b p'. parseBody stod n [] p = Some (Inr (b, p')) \<Longrightarrow> \<not> list_ex containsClassDecl b"
    using body [of "[]"] by simp
  have 1: "\<not> containsClassDecl s" if "parseStatement stod (Suc n) p = Some (Inr (s, p'))" for p s p'
    using parseStatement_no_class [OF expr body0 that] .
  have 2: "\<not> list_ex containsClassDecl b"
    if "parseBody stod (Suc n) bd p = Some (Inr (b, p'))" "\<not> list_ex containsClassDecl bd" for bd p b p'
    using parseBody_no_class [OF stmt body that] .
  have 3: "\<not> containsClassDeclE e" if "parsePrimary stod (Suc n) p = Some (Inr (e, p'))" for p e p'
    using parsePrimary_no_class [OF expr body0 that] .
  have 4: "\<not> containsClassDeclE e" if "parsePostfix stod (Suc n) p = Some (Inr (e, p'))" for p e p'
    using operandThenLoop_no_class [where operand = "parsePrimary stod n"
        and again = "parsePostfixLoop stod n", OF prim postL] that by simp
  have 5: "\<not> containsClassDeclE e"
    if "parsePostfixLoop stod (Suc n) l p = Some (Inr (e, p'))" "\<not> containsClassDeclE l" for l p e p'
    using parsePostfixLoop_no_class [OF expr postL that] .
  have 6: "\<not> containsClassDeclE e" if "parseMultiplicative stod (Suc n) p = Some (Inr (e, p'))" for p e p'
    using operandThenLoop_no_class [where operand = "parsePostfix stod n"
        and again = "parseMultiplicativeLoop stod n", OF post mulL] that by simp
  have 7: "\<not> containsClassDeclE e"
    if "parseMultiplicativeLoop stod (Suc n) l p = Some (Inr (e, p'))" "\<not> containsClassDeclE l" for l p e p'
    using binaryLoop_no_class [where operand = "parsePostfix stod n" and again = "parseMultiplicativeLoop stod n"
        and opOf = mulOp, OF post mulL] that by simp
  have 8: "\<not> containsClassDeclE e" if "parseAdditive stod (Suc n) p = Some (Inr (e, p'))" for p e p'
    using operandThenLoop_no_class [where operand = "parseMultiplicative stod n"
        and again = "parseAdditiveLoop stod n", OF mul addL] that by simp
  have 9: "\<not> containsClassDeclE e"
    if "parseAdditiveLoop stod (Suc n) l p = Some (Inr (e, p'))" "\<not> containsClassDeclE l" for l p e p'
    using binaryLoop_no_class [where operand = "parseMultiplicative stod n" and again = "parseAdditiveLoop stod n"
        and opOf = addOp, OF mul addL] that by simp
  have 10: "\<not> containsClassDeclE e" if "parseComparison stod (Suc n) p = Some (Inr (e, p'))" for p e p'
    using operandThenLoop_no_class [where operand = "parseAdditive stod n"
        and again = "parseComparisonLoop stod n", OF add cmpL] that by simp
  have 11: "\<not> containsClassDeclE e"
    if "parseComparisonLoop stod (Suc n) l p = Some (Inr (e, p'))" "\<not> containsClassDeclE l" for l p e p'
    using binaryLoop_no_class [where operand = "parseAdditive stod n" and again = "parseComparisonLoop stod n"
        and opOf = cmpOp, OF add cmpL] that by simp
  have 12: "\<not> containsClassDeclE e" if "parseExpression stod (Suc n) p = Some (Inr (e, p'))" for p e p'
    using that cmp by simp
  show ?case
    using 1 2 3 4 5 6 7 8 9 10 11 12 by blast
qed

lemma parseLoop_no_class:
  "parseLoop stod n statements p = Some (Inr program) \<Longrightarrow>
     \<not> list_ex containsClassDecl statements \<Longrightarrow> \<not> programContainsClassDecl program"
proof (induction n arbitrary: statements p)
  case 0
  then show ?case by simp
next
  case (Suc n)
  from Suc.prems(1) obtain tok where "currentP p = Some (Inr tok)"
    and rest: "(if tok_type tok \<noteq> TokenType.EndOfFile then
                 andThen (parseStatement stod n p) (\<lambda>(stmt, p1).
                 parseLoop stod n (statements @ [stmt]) p1)
               else ok (ProgramNode statements)) = Some (Inr program)"
    by (auto elim!: andThen_okE)
  show ?case
  proof (cases "tok_type tok \<noteq> TokenType.EndOfFile")
    case True
    with rest obtain stmt p1 where s: "parseStatement stod n p = Some (Inr (stmt, p1))"
      and l: "parseLoop stod n (statements @ [stmt]) p1 = Some (Inr program)"
      by (auto elim!: andThen_okE)
    from no_class_all [THEN conjunct1, rule_format, OF s] have "\<not> containsClassDecl stmt" .
    with Suc.prems(2) have "\<not> list_ex containsClassDecl (statements @ [stmt])" by simp
    from Suc.IH [OF l this] show ?thesis .
  next
    case False
    with rest Suc.prems(2) show ?thesis by auto
  qed
qed

lemma matchP_False: "matchP p type = Some (Inr (False, p')) \<Longrightarrow> p' = p"
  by (auto simp: matchP_def elim!: andThen_okE split: if_splits)

lemma matchP_True:
  "matchP p type = Some (Inr (True, p')) \<Longrightarrow>
     (\<exists>tok. currentP p = Some (Inr tok) \<and> tok_type tok = type) \<and> p' = advanceP p"
  by (auto simp: matchP_def elim!: andThen_okE split: if_splits)

lemma matchP_eval:
  "currentP p = Some (Inr tok) \<Longrightarrow>
     matchP p type = (if tok_type tok = type then ok (True, advanceP p) else ok (False, p))"
  by (simp add: matchP_def andThen_def)

lemma expectP_eval:
  "currentP p = Some (Inr tok) \<Longrightarrow>
     expectP p type message =
       (if tok_type tok = type then ok (advanceP p)
        else throw (runtime_error (message @ '' at line '' @ to_string (tok_line tok))))"
  by (simp add: expectP_def matchP_eval andThen_def ok_def)

lemma parsePrimary_parenthesized:
  assumes "currentP p = Some (Inr tok)" and "tok_type tok = TokenType.LParen"
    and "parseExpression stod n (advanceP p) = Some (Inr (e, p1))"
    and "currentP p1 = Some (Inr tok1)" and "tok_type tok1 = TokenType.RParen"
  shows "parsePrimary stod (Suc n) p = ok (e, advanceP p1)"
  using assms by (simp add: matchP_eval expectP_eval andThen_def ok_def)

subsection \<open>The first token of an expression, and assignments\<close>

lemma parsePrimary_start:
  "parsePrimary stod n p = Some (Inr r) \<Longrightarrow>
     \<exists>tok. currentP p = Some (Inr tok) \<and> expressionStart (tok_type tok)"
  by (cases n)
     (auto simp: expressionStart_def Let_def elim!: andThen_okE dest!: matchP_False matchP_True
           split: if_splits sum.splits)

lemma parsePostfix_start:
  "parsePostfix stod n p = Some (Inr r) \<Longrightarrow>
     \<exists>tok. currentP p = Some (Inr tok) \<and> expressionStart (tok_type tok)"
  by (cases n) (auto elim!: andThen_okE dest!: parsePrimary_start)

lemma parseMultiplicative_start:
  "parseMultiplicative stod n p = Some (Inr r) \<Longrightarrow>
     \<exists>tok. currentP p = Some (Inr tok) \<and> expressionStart (tok_type tok)"
  by (cases n) (auto elim!: andThen_okE dest!: parsePostfix_start)

lemma parseAdditive_start:
  "parseAdditive stod n p = Some (Inr r) \<Longrightarrow>
     \<exists>tok. currentP p = Some (Inr tok) \<and> expressionStart (tok_type tok)"
  by (cases n) (auto elim!: andThen_okE dest!: parseMultiplicative_start)

lemma parseComparison_start:
  "parseComparison stod n p = Some (Inr r) \<Longrightarrow>
     \<exists>tok. currentP p = Some (Inr tok) \<and> expressionStart (tok_type tok)"
  by (cases n) (auto elim!: andThen_okE dest!: parseAdditive_start)

lemma parseExpression_start:
  "parseExpression stod n p = Some (Inr r) \<Longrightarrow>
     \<exists>tok. currentP p = Some (Inr tok) \<and> expressionStart (tok_type tok)"
  by (cases n) (auto dest!: parseComparison_start)

lemma parseStatement_assignment_only_to_VarRef:
  assumes "parseStatement stod (Suc n) p = Some (Inr (AssignNode name val, p'))"
  shows "\<exists>p1 tok. parseExpression stod n p = Some (Inr (VarRefNode name, p1))
           \<and> currentP p1 = Some (Inr tok) \<and> tok_type tok = TokenType.Assign"
  using assms
  by (auto simp: Let_def elim!: andThen_okE dest!: matchP_False matchP_True
           split: if_splits option.splits ExprNode.splits)

lemma parseStatement_not_assignable:
  assumes e: "parseExpression stod n p = Some (Inr (e, p1))"
    and nv: "case e of VarRefNode name \<Rightarrow> False | _ \<Rightarrow> True"
    and c: "currentP p1 = Some (Inr tok1)" and a: "tok_type tok1 = TokenType.Assign"
  shows "parseStatement stod (Suc n) p =
           throw (runtime_error (''Expected '' @ quoted '';'' @ '' at line '' @ to_string (tok_line tok1)))"
proof -
  from parseExpression_start [OF e] obtain tok where t: "currentP p = Some (Inr tok)"
    and s: "expressionStart (tok_type tok)" by blast
  from s have d: "tok_type tok \<noteq> TokenType.Entjera" "tok_type tok \<noteq> TokenType.Reala"
    "tok_type tok \<noteq> TokenType.Teksta" "tok_type tok \<noteq> TokenType.Bulea"
    "tok_type tok \<noteq> TokenType.Funkcia" "tok_type tok \<noteq> TokenType.Funkcio"
    "tok_type tok \<noteq> TokenType.Reveni" "tok_type tok \<noteq> TokenType.Se"
    "tok_type tok \<noteq> TokenType.Dum"
    by (auto simp: expressionStart_def)
  from nv show ?thesis
    by (cases e) (simp_all add: t d e c a matchP_eval expectP_eval andThen_def ok_def throw_def)
qed

subsection \<open>A larger bound on the depth changes no result\<close>

text \<open>
  What a grammar function returns or throws within a bound on the depth, it returns or
  throws within every larger bound: the bound only decides whether the call is followed to
  its end.
\<close>

lemma returnsMore_refl: "returnsMore r r"
  by (simp add: returnsMore_def)

lemma returnsMore_None: "returnsMore None r"
  by (simp add: returnsMore_def)

lemma returnsMore_andThen:
  "returnsMore m m' \<Longrightarrow> (\<And>x. returnsMore (f x) (f' x)) \<Longrightarrow>
     returnsMore (andThen m f) (andThen m' f')"
  by (auto simp: returnsMore_def andThen_def split: option.splits sum.splits)

lemma returnsMore_if:
  "(c \<Longrightarrow> returnsMore a a') \<Longrightarrow> (\<not> c \<Longrightarrow> returnsMore b b') \<Longrightarrow>
     returnsMore (if c then a else b) (if c then a' else b')"
  by simp

lemma returnsMore_prod:
  "(\<And>a b. returnsMore (f a b) (f' a b)) \<Longrightarrow> returnsMore (case_prod f x) (case_prod f' x)"
  by (cases x) simp

lemma returnsMore_option:
  "returnsMore a a' \<Longrightarrow> (\<And>y. returnsMore (f y) (f' y)) \<Longrightarrow>
     returnsMore (case_option a f x) (case_option a' f' x)"
  by (cases x) simp_all

lemma returnsMore_Let:
  "(\<And>y. returnsMore (f y) (f' y)) \<Longrightarrow> returnsMore (Let x f) (Let x f')"
  by (simp add: Let_def)

lemma returnsMore_VarRef:
  "(\<And>name. returnsMore (f name) (f' name)) \<Longrightarrow>
   returnsMore
     (case e of VarRefNode name \<Rightarrow> f name | _ \<Rightarrow> d)
     (case e of VarRefNode name \<Rightarrow> f' name | _ \<Rightarrow> d)"
  by (cases e) (simp_all add: returnsMore_refl)

lemmas returnsMore_rules =
  returnsMore_andThen returnsMore_if returnsMore_prod returnsMore_option returnsMore_Let
  returnsMore_VarRef

lemma fuel_mono_step:
  assumes parseStatement_le: "\<And>p. returnsMore (parseStatement stod n p) (parseStatement stod m p)"
    and parseBody_le: "\<And>b p. returnsMore (parseBody stod n b p) (parseBody stod m b p)"
    and parsePrimary_le: "\<And>p. returnsMore (parsePrimary stod n p) (parsePrimary stod m p)"
    and parsePostfix_le: "\<And>p. returnsMore (parsePostfix stod n p) (parsePostfix stod m p)"
    and parsePostfixLoop_le: "\<And>l p. returnsMore (parsePostfixLoop stod n l p) (parsePostfixLoop stod m l p)"
    and parseMultiplicative_le: "\<And>p. returnsMore (parseMultiplicative stod n p) (parseMultiplicative stod m p)"
    and parseMultiplicativeLoop_le: "\<And>l p. returnsMore (parseMultiplicativeLoop stod n l p) (parseMultiplicativeLoop stod m l p)"
    and parseAdditive_le: "\<And>p. returnsMore (parseAdditive stod n p) (parseAdditive stod m p)"
    and parseAdditiveLoop_le: "\<And>l p. returnsMore (parseAdditiveLoop stod n l p) (parseAdditiveLoop stod m l p)"
    and parseComparison_le: "\<And>p. returnsMore (parseComparison stod n p) (parseComparison stod m p)"
    and parseComparisonLoop_le: "\<And>l p. returnsMore (parseComparisonLoop stod n l p) (parseComparisonLoop stod m l p)"
    and parseExpression_le: "\<And>p. returnsMore (parseExpression stod n p) (parseExpression stod m p)"
  shows "returnsMore (parseStatement stod (Suc n) p) (parseStatement stod (Suc m) p)"
    and "returnsMore (parseBody stod (Suc n) b p) (parseBody stod (Suc m) b p)"
    and "returnsMore (parsePrimary stod (Suc n) p) (parsePrimary stod (Suc m) p)"
    and "returnsMore (parsePostfix stod (Suc n) p) (parsePostfix stod (Suc m) p)"
    and "returnsMore (parsePostfixLoop stod (Suc n) l p) (parsePostfixLoop stod (Suc m) l p)"
    and "returnsMore (parseMultiplicative stod (Suc n) p) (parseMultiplicative stod (Suc m) p)"
    and "returnsMore (parseMultiplicativeLoop stod (Suc n) l p) (parseMultiplicativeLoop stod (Suc m) l p)"
    and "returnsMore (parseAdditive stod (Suc n) p) (parseAdditive stod (Suc m) p)"
    and "returnsMore (parseAdditiveLoop stod (Suc n) l p) (parseAdditiveLoop stod (Suc m) l p)"
    and "returnsMore (parseComparison stod (Suc n) p) (parseComparison stod (Suc m) p)"
    and "returnsMore (parseComparisonLoop stod (Suc n) l p) (parseComparisonLoop stod (Suc m) l p)"
    and "returnsMore (parseExpression stod (Suc n) p) (parseExpression stod (Suc m) p)"
  unfolding parseStatement.simps(2) parseBody.simps(2) parsePrimary.simps(2) parsePostfix.simps(2)
    parsePostfixLoop.simps(2) parseMultiplicative.simps(2) parseMultiplicativeLoop.simps(2)
    parseAdditive.simps(2) parseAdditiveLoop.simps(2) parseComparison.simps(2)
    parseComparisonLoop.simps(2) parseExpression.simps(2)
  by (intro returnsMore_rules assms returnsMore_refl)+

lemma fuel_mono:
  "(\<forall>p. returnsMore (parseStatement stod n p) (parseStatement stod (n + k) p)) \<and>
   (\<forall>b p. returnsMore (parseBody stod n b p) (parseBody stod (n + k) b p)) \<and>
   (\<forall>p. returnsMore (parsePrimary stod n p) (parsePrimary stod (n + k) p)) \<and>
   (\<forall>p. returnsMore (parsePostfix stod n p) (parsePostfix stod (n + k) p)) \<and>
   (\<forall>l p. returnsMore (parsePostfixLoop stod n l p) (parsePostfixLoop stod (n + k) l p)) \<and>
   (\<forall>p. returnsMore (parseMultiplicative stod n p) (parseMultiplicative stod (n + k) p)) \<and>
   (\<forall>l p. returnsMore (parseMultiplicativeLoop stod n l p) (parseMultiplicativeLoop stod (n + k) l p)) \<and>
   (\<forall>p. returnsMore (parseAdditive stod n p) (parseAdditive stod (n + k) p)) \<and>
   (\<forall>l p. returnsMore (parseAdditiveLoop stod n l p) (parseAdditiveLoop stod (n + k) l p)) \<and>
   (\<forall>p. returnsMore (parseComparison stod n p) (parseComparison stod (n + k) p)) \<and>
   (\<forall>l p. returnsMore (parseComparisonLoop stod n l p) (parseComparisonLoop stod (n + k) l p)) \<and>
   (\<forall>p. returnsMore (parseExpression stod n p) (parseExpression stod (n + k) p))"
proof (induction n)
  case 0
  show ?case
    unfolding parseStatement.simps(1) parseBody.simps(1) parsePrimary.simps(1)
      parsePostfix.simps(1) parsePostfixLoop.simps(1) parseMultiplicative.simps(1)
      parseMultiplicativeLoop.simps(1) parseAdditive.simps(1) parseAdditiveLoop.simps(1)
      parseComparison.simps(1) parseComparisonLoop.simps(1) parseExpression.simps(1)
    by (intro conjI allI returnsMore_None)
next
  case (Suc n)
  then have parseStatement_le: "\<And>p. returnsMore (parseStatement stod n p) (parseStatement stod (n + k) p)"
    and parseBody_le: "\<And>b p. returnsMore (parseBody stod n b p) (parseBody stod (n + k) b p)"
    and parsePrimary_le: "\<And>p. returnsMore (parsePrimary stod n p) (parsePrimary stod (n + k) p)"
    and parsePostfix_le: "\<And>p. returnsMore (parsePostfix stod n p) (parsePostfix stod (n + k) p)"
    and parsePostfixLoop_le: "\<And>l p. returnsMore (parsePostfixLoop stod n l p) (parsePostfixLoop stod (n + k) l p)"
    and parseMultiplicative_le: "\<And>p. returnsMore (parseMultiplicative stod n p) (parseMultiplicative stod (n + k) p)"
    and parseMultiplicativeLoop_le: "\<And>l p. returnsMore (parseMultiplicativeLoop stod n l p) (parseMultiplicativeLoop stod (n + k) l p)"
    and parseAdditive_le: "\<And>p. returnsMore (parseAdditive stod n p) (parseAdditive stod (n + k) p)"
    and parseAdditiveLoop_le: "\<And>l p. returnsMore (parseAdditiveLoop stod n l p) (parseAdditiveLoop stod (n + k) l p)"
    and parseComparison_le: "\<And>p. returnsMore (parseComparison stod n p) (parseComparison stod (n + k) p)"
    and parseComparisonLoop_le: "\<And>l p. returnsMore (parseComparisonLoop stod n l p) (parseComparisonLoop stod (n + k) l p)"
    and parseExpression_le: "\<And>p. returnsMore (parseExpression stod n p) (parseExpression stod (n + k) p)"
    by simp_all
  note IH = parseStatement_le parseBody_le parsePrimary_le parsePostfix_le parsePostfixLoop_le parseMultiplicative_le parseMultiplicativeLoop_le parseAdditive_le parseAdditiveLoop_le parseComparison_le parseComparisonLoop_le parseExpression_le
  note step = fuel_mono_step [of stod n "n + k", OF IH]
  show ?case
    unfolding add_Suc
    by (intro conjI allI step)
qed

lemma returnsMore_Some: "returnsMore r r' \<Longrightarrow> r = Some v \<Longrightarrow> r' = Some v"
  by (auto simp: returnsMore_def)

lemma parsePrimary_more_fuel:
  "parsePrimary stod n p = Some r \<Longrightarrow> parsePrimary stod (n + k) p = Some r"
  using fuel_mono [of stod n k] by (blast intro: returnsMore_Some)

lemma parseExpression_more_fuel:
  "parseExpression stod n p = Some r \<Longrightarrow> parseExpression stod (n + k) p = Some r"
  using fuel_mono [of stod n k] by (blast intro: returnsMore_Some)

lemma parseStatement_more_fuel:
  "parseStatement stod n p = Some r \<Longrightarrow> parseStatement stod (n + k) p = Some r"
  using fuel_mono [of stod n k] by (blast intro: returnsMore_Some)

lemma parseLoop_returnsMore:
  "returnsMore (parseLoop stod n statements p) (parseLoop stod (n + k) statements p)"
proof (induction n arbitrary: statements p)
  case 0
  show ?case by (simp add: returnsMore_None)
next
  case (Suc n)
  have stmt: "returnsMore (parseStatement stod n p) (parseStatement stod (n + k) p)" for p
    using fuel_mono [of stod n k] by blast
  show ?case
    unfolding add_Suc parseLoop.simps(2)
    by (intro returnsMore_rules stmt Suc.IH returnsMore_refl)
qed

lemma parse_more_fuel:
  "parse stod n tokens = Some r \<Longrightarrow> parse stod (n + k) tokens = Some r"
  unfolding parse_def using parseLoop_returnsMore by (rule returnsMore_Some)

subsection \<open>The loops over binary operators nest to the left\<close>

text \<open>
  A loop that reads a run of operators and operands returns the left-nested tree over them.
  The operands are what the operand function returns under the bound \<open>n\<close>; the loop calls it
  under larger bounds, where it returns the same.
\<close>

lemma parsePostfix_more_fuel:
  "parsePostfix stod n p = Some r \<Longrightarrow> parsePostfix stod (n + k) p = Some r"
  using fuel_mono [of stod n k] by (blast intro: returnsMore_Some)

lemma parseMultiplicative_more_fuel:
  "parseMultiplicative stod n p = Some r \<Longrightarrow> parseMultiplicative stod (n + k) p = Some r"
  using fuel_mono [of stod n k] by (blast intro: returnsMore_Some)

lemma parseAdditive_more_fuel:
  "parseAdditive stod n p = Some r \<Longrightarrow> parseAdditive stod (n + k) p = Some r"
  using fuel_mono [of stod n k] by (blast intro: returnsMore_Some)

lemma afterOperands_Cons:
  assumes "afterOperands operand opOf p ((op, right) # rest) = Some p'"
  obtains tok p1 where "currentP p = Some (Inr tok)" and "opOf (tok_type tok) = Some op"
    and "operand (advanceP p) = Some (Inr (right, p1))"
    and "afterOperands operand opOf p1 rest = Some p'"
  using assms by (auto split: option.splits sum.splits if_splits)

lemma binaryLoop_leftNested:
  assumes step: "\<And>m left p. loop (Suc m) left p =
      andThen (currentP p) (\<lambda>tok.
        case opOf (tok_type tok) of
          Some op \<Rightarrow> andThen (operand m (advanceP p)) (\<lambda>(right, p1).
                       loop m (BinaryOpNode op left right) p1)
        | None \<Rightarrow> ok (left, p))"
    and mono: "\<And>k p r. operand n p = Some r \<Longrightarrow> operand (n + k) p = Some r"
    and ops: "afterOperands (operand n) opOf p rest = Some p'"
    and stop: "currentP p' = Some (Inr tok)" "opOf (tok_type tok) = None"
  shows "loop (Suc (n + length rest)) left p = ok (leftNested left rest, p')"
  using ops
proof (induction rest arbitrary: left p)
  case Nil
  then have "p' = p" by simp
  with stop show ?case
    by (simp add: step andThen_def leftNested_def)
next
  case (Cons a rest)
  obtain op right where a: "a = (op, right)" by (cases a)
  from Cons.prems [unfolded a] obtain tok0 p1 where c: "currentP p = Some (Inr tok0)"
    and o: "opOf (tok_type tok0) = Some op"
    and r: "operand n (advanceP p) = Some (Inr (right, p1))"
    and rest: "afterOperands (operand n) opOf p1 rest = Some p'"
    by (rule afterOperands_Cons)
  from mono [OF r, of "Suc (length rest)"]
  have r': "operand (Suc (n + length rest)) (advanceP p) = Some (Inr (right, p1))" by simp
  have "loop (Suc (n + length (a # rest))) left p =
          loop (Suc (n + length rest)) (BinaryOpNode op left right) p1"
    using c o r' by (simp add: step [of "Suc (n + length rest)"] andThen_def)
  also have "\<dots> = ok (leftNested (BinaryOpNode op left right) rest, p1')" if "p1' = p'" for p1'
    using Cons.IH [OF rest] that by simp
  finally show ?case
    by (simp add: a leftNested_def)
qed

lemma parseMultiplicativeLoop_step:
  "parseMultiplicativeLoop stod (Suc m) left p =
      andThen (currentP p) (\<lambda>tok.
        case mulOp (tok_type tok) of
          Some op \<Rightarrow> andThen (parsePostfix stod m (advanceP p)) (\<lambda>(right, p1).
                       parseMultiplicativeLoop stod m (BinaryOpNode op left right) p1)
        | None \<Rightarrow> ok (left, p))"
  by simp

lemma parseAdditiveLoop_step:
  "parseAdditiveLoop stod (Suc m) left p =
      andThen (currentP p) (\<lambda>tok.
        case addOp (tok_type tok) of
          Some op \<Rightarrow> andThen (parseMultiplicative stod m (advanceP p)) (\<lambda>(right, p1).
                       parseAdditiveLoop stod m (BinaryOpNode op left right) p1)
        | None \<Rightarrow> ok (left, p))"
  by simp

lemma parseComparisonLoop_step:
  "parseComparisonLoop stod (Suc m) left p =
      andThen (currentP p) (\<lambda>tok.
        case cmpOp (tok_type tok) of
          Some op \<Rightarrow> andThen (parseAdditive stod m (advanceP p)) (\<lambda>(right, p1).
                       parseComparisonLoop stod m (BinaryOpNode op left right) p1)
        | None \<Rightarrow> ok (left, p))"
  by simp

lemma parseMultiplicative_leftNested:
  assumes first: "parsePostfix stod n p = Some (Inr (first, p0))"
    and ops: "afterOperands (parsePostfix stod n) mulOp p0 rest = Some p'"
    and stop: "currentP p' = Some (Inr tok)" "mulOp (tok_type tok) = None"
  shows "parseMultiplicative stod (n + length rest + 2) p = ok (leftNested first rest, p')"
proof -
  have l: "parseMultiplicativeLoop stod (Suc (n + length rest)) first p0 =
             ok (leftNested first rest, p')"
    by (rule binaryLoop_leftNested [where loop = "parseMultiplicativeLoop stod"
          and operand = "parsePostfix stod" and opOf = mulOp,
          OF parseMultiplicativeLoop_step parsePostfix_more_fuel ops stop])
  have f: "parsePostfix stod (n + Suc (length rest)) p = Some (Inr (first, p0))"
    using first by (rule parsePostfix_more_fuel)
  have "n + length rest + 2 = Suc (Suc (n + length rest))" by simp
  with l f show ?thesis by (simp add: andThen_def del: parseMultiplicativeLoop.simps)
qed

lemma parseAdditive_leftNested:
  assumes first: "parseMultiplicative stod n p = Some (Inr (first, p0))"
    and ops: "afterOperands (parseMultiplicative stod n) addOp p0 rest = Some p'"
    and stop: "currentP p' = Some (Inr tok)" "addOp (tok_type tok) = None"
  shows "parseAdditive stod (n + length rest + 2) p = ok (leftNested first rest, p')"
proof -
  have l: "parseAdditiveLoop stod (Suc (n + length rest)) first p0 =
             ok (leftNested first rest, p')"
    by (rule binaryLoop_leftNested [where loop = "parseAdditiveLoop stod"
          and operand = "parseMultiplicative stod" and opOf = addOp,
          OF parseAdditiveLoop_step parseMultiplicative_more_fuel ops stop])
  have f: "parseMultiplicative stod (n + Suc (length rest)) p = Some (Inr (first, p0))"
    using first by (rule parseMultiplicative_more_fuel)
  have "n + length rest + 2 = Suc (Suc (n + length rest))" by simp
  with l f show ?thesis
    by (simp add: andThen_def del: parseAdditiveLoop.simps parseMultiplicative.simps)
qed

lemma parseComparison_leftNested:
  assumes first: "parseAdditive stod n p = Some (Inr (first, p0))"
    and ops: "afterOperands (parseAdditive stod n) cmpOp p0 rest = Some p'"
    and stop: "currentP p' = Some (Inr tok)" "cmpOp (tok_type tok) = None"
  shows "parseComparison stod (n + length rest + 2) p = ok (leftNested first rest, p')"
proof -
  have l: "parseComparisonLoop stod (Suc (n + length rest)) first p0 =
             ok (leftNested first rest, p')"
    by (rule binaryLoop_leftNested [where loop = "parseComparisonLoop stod"
          and operand = "parseAdditive stod" and opOf = cmpOp,
          OF parseComparisonLoop_step parseAdditive_more_fuel ops stop])
  have f: "parseAdditive stod (n + Suc (length rest)) p = Some (Inr (first, p0))"
    using first by (rule parseAdditive_more_fuel)
  have "n + length rest + 2 = Suc (Suc (n + length rest))" by simp
  with l f show ?thesis
    by (simp add: andThen_def del: parseComparisonLoop.simps parseAdditive.simps)
qed

section \<open>Properties\<close>

subsection \<open>The integer flag of a number literal\<close>

text \<open>
  C1. The claim: the number literal that \<^verbatim>\<open>parsePrimary\<close> builds from a Number token has its
  integer flag set exactly when the text of the token contains no \<open>.\<close>, so that \<open>42\<close> gives
  \<open>true\<close> and \<open>3.14\<close> gives \<open>false\<close>. The source computes the flag \<^verbatim>\<open>isInt\<close> as
  \<^verbatim>\<open>current().value.contains('.')\<close>: evaluated on the tokens of \<open>42\<close> the flag of the literal is
  \<open>False\<close>, and on the tokens of \<open>3.14\<close> it is \<open>True\<close>, the opposite of the claim, under
  every bound on the depth that lets the call return.
\<close>

theorem parsePrimary_integer_flag_inverted:
  "\<forall>k. parsePrimary stod_decimal (1 + k) (Parser (tokenize ''42'')) =
       ok (NumberLiteral 42 False, (Parser (tokenize ''42''))\<lparr>m_positionP := 1\<rparr>)
     \<and> parsePrimary stod_decimal (1 + k) (Parser (tokenize ''3.14'')) =
       ok (NumberLiteral (157 / 50) True, (Parser (tokenize ''3.14''))\<lparr>m_positionP := 1\<rparr>)"
proof (intro allI conjI)
  fix k
  have "parsePrimary stod_decimal 1 (Parser (tokenize ''42'')) =
      ok (NumberLiteral 42 False, (Parser (tokenize ''42''))\<lparr>m_positionP := 1\<rparr>)"
    by code_simp
  then show "parsePrimary stod_decimal (1 + k) (Parser (tokenize ''42'')) =
      ok (NumberLiteral 42 False, (Parser (tokenize ''42''))\<lparr>m_positionP := 1\<rparr>)"
    unfolding ok_def throw_def by (rule parsePrimary_more_fuel)
  have "parsePrimary stod_decimal 1 (Parser (tokenize ''3.14'')) =
      ok (NumberLiteral (157 / 50) True, (Parser (tokenize ''3.14''))\<lparr>m_positionP := 1\<rparr>)"
    by code_simp
  then show "parsePrimary stod_decimal (1 + k) (Parser (tokenize ''3.14'')) =
      ok (NumberLiteral (157 / 50) True, (Parser (tokenize ''3.14''))\<lparr>m_positionP := 1\<rparr>)"
    unfolding ok_def throw_def by (rule parsePrimary_more_fuel)
qed

subsection \<open>What a parse failure carries\<close>

text \<open>
  C2. The claim: every parse failure carries a message and the line of the offending token,
  in each of the three categories. Only \<^verbatim>\<open>expect\<close> appends the line. The exception thrown by
  \<^verbatim>\<open>parsePrimary\<close> on a token that starts no expression and the one thrown by \<^verbatim>\<open>parseType\<close> on a
  token that is no type keyword are fixed texts: the offending token on line 1 or on line 3
  gives the same exception, while a missing \<open>;\<close> on line 3 is reported with its line. The
  results are those of every bound on the depth from 12 on.
\<close>

theorem parse_failure_message_without_line:
  "\<forall>k. parse stod_decimal (12 + k) (tokenize ''+'') =
       (throw (runtime_error ''Unexpected token in expression'') :: rat ProgramNode result)
     \<and> parse stod_decimal (12 + k) (tokenize [CHR 0x0A, CHR 0x0A, CHR ''+'']) =
       (throw (runtime_error ''Unexpected token in expression'') :: rat ProgramNode result)
     \<and> parse stod_decimal (12 + k) (tokenize ''funkcio f(x'') =
       (throw (runtime_error ''Expected type'') :: rat ProgramNode result)
     \<and> parse stod_decimal (12 + k) (tokenize ([CHR 0x0A, CHR 0x0A] @ ''funkcio f(x'')) =
       (throw (runtime_error ''Expected type'') :: rat ProgramNode result)
     \<and> parse stod_decimal (12 + k) (tokenize ([CHR 0x0A, CHR 0x0A] @ ''entjera x'')) =
       (throw (runtime_error (''Expected '' @ quoted '';'' @ '' at line 3'')) :: rat ProgramNode result)"
proof (intro allI conjI)
  fix k
  have "parse stod_decimal 12 (tokenize ''+'') =
      (throw (runtime_error ''Unexpected token in expression'') :: rat ProgramNode result)"
    by code_simp
  then show "parse stod_decimal (12 + k) (tokenize ''+'') =
      (throw (runtime_error ''Unexpected token in expression'') :: rat ProgramNode result)"
    unfolding ok_def throw_def by (rule parse_more_fuel)
  have "parse stod_decimal 12 (tokenize [CHR 0x0A, CHR 0x0A, CHR ''+'']) =
      (throw (runtime_error ''Unexpected token in expression'') :: rat ProgramNode result)"
    by code_simp
  then show "parse stod_decimal (12 + k) (tokenize [CHR 0x0A, CHR 0x0A, CHR ''+'']) =
      (throw (runtime_error ''Unexpected token in expression'') :: rat ProgramNode result)"
    unfolding ok_def throw_def by (rule parse_more_fuel)
  have "parse stod_decimal 12 (tokenize ''funkcio f(x'') =
      (throw (runtime_error ''Expected type'') :: rat ProgramNode result)"
    by code_simp
  then show "parse stod_decimal (12 + k) (tokenize ''funkcio f(x'') =
      (throw (runtime_error ''Expected type'') :: rat ProgramNode result)"
    unfolding ok_def throw_def by (rule parse_more_fuel)
  have "parse stod_decimal 12 (tokenize ([CHR 0x0A, CHR 0x0A] @ ''funkcio f(x'')) =
      (throw (runtime_error ''Expected type'') :: rat ProgramNode result)"
    by code_simp
  then show "parse stod_decimal (12 + k) (tokenize ([CHR 0x0A, CHR 0x0A] @ ''funkcio f(x'')) =
      (throw (runtime_error ''Expected type'') :: rat ProgramNode result)"
    unfolding ok_def throw_def by (rule parse_more_fuel)
  have "parse stod_decimal 12 (tokenize ([CHR 0x0A, CHR 0x0A] @ ''entjera x'')) =
      (throw (runtime_error (''Expected '' @ quoted '';'' @ '' at line 3'')) :: rat ProgramNode result)"
    by code_simp
  then show "parse stod_decimal (12 + k) (tokenize ([CHR 0x0A, CHR 0x0A] @ ''entjera x'')) =
      (throw (runtime_error (''Expected '' @ quoted '';'' @ '' at line 3'')) :: rat ProgramNode result)"
    unfolding ok_def throw_def by (rule parse_more_fuel)
qed

subsection \<open>The position recorded in a token\<close>

text \<open>
  C3. The claim: every token records the line and the column of its first character, also a
  string literal that spans several lines. \<^verbatim>\<open>readString\<close> saves the column before reading and
  takes the line after it: the string literal that opens at line 1, column 0 and contains a
  newline is recorded at line 2, column 0.
\<close>

theorem readString_token_line_is_last_line:
  "tokenize [CHR 0x22, CHR ''a'', CHR 0x0A, CHR ''b'', CHR 0x22] =
     [Token TokenType.String [CHR ''a'', CHR 0x0A, CHR ''b''] 2 0,
      Token TokenType.EndOfFile [] 2 2]"
  by code_simp

subsection \<open>Precedence and associativity of binary operators\<close>

text \<open>
  C4. At each of the three levels of binary operators, for every cursor: when the operand
  function of the level returns a first operand, the tokens after it are a run of operators of
  the level, each followed by an operand that the operand function returns, and the token after
  the run is no operator of the level, then the level returns the tree that nests the
  operations to the left, whatever the number of operators. The operands of the additive level
  (\<open>+\<close>, \<open>-\<close>) are the results of the multiplicative level (\<open>*\<close>, \<open>/\<close>), so multiplication binds
  tighter than addition; the operands of the multiplicative level are postfix expressions and
  those of the comparison level are results of the additive level. In particular \<open>1 + 2 * 3\<close>
  is an addition whose right operand is the multiplication of 2 and 3, and \<open>1 - 2 - 3\<close> is a
  subtraction whose left operand is the subtraction of 1 and 2, under every bound on the depth
  from 12 on, also when followed by \<open>;\<close> and parsed as programs.
\<close>

theorem binary_operators_precedence_and_associativity:
  "(\<forall>(stod :: string \<Rightarrow> error + 'd) n p first p0 rest p' tok.
      parsePostfix stod n p = Some (Inr (first, p0))
      \<and> afterOperands (parsePostfix stod n) mulOp p0 rest = Some p'
      \<and> currentP p' = Some (Inr tok) \<and> mulOp (tok_type tok) = None \<longrightarrow>
      parseMultiplicative stod (n + length rest + 2) p = ok (leftNested first rest, p'))
   \<and> (\<forall>(stod :: string \<Rightarrow> error + 'd) n p first p0 rest p' tok.
      parseMultiplicative stod n p = Some (Inr (first, p0))
      \<and> afterOperands (parseMultiplicative stod n) addOp p0 rest = Some p'
      \<and> currentP p' = Some (Inr tok) \<and> addOp (tok_type tok) = None \<longrightarrow>
      parseAdditive stod (n + length rest + 2) p = ok (leftNested first rest, p'))
   \<and> (\<forall>(stod :: string \<Rightarrow> error + 'd) n p first p0 rest p' tok.
      parseAdditive stod n p = Some (Inr (first, p0))
      \<and> afterOperands (parseAdditive stod n) cmpOp p0 rest = Some p'
      \<and> currentP p' = Some (Inr tok) \<and> cmpOp (tok_type tok) = None \<longrightarrow>
      parseComparison stod (n + length rest + 2) p = ok (leftNested first rest, p'))
   \<and> (\<forall>t. mulOp t = (if t = TokenType.Multiply then Some OpType.Mul
                     else if t = TokenType.Divide then Some OpType.Div else None))
   \<and> (\<forall>t. addOp t = (if t = TokenType.Plus then Some OpType.Add
                     else if t = TokenType.Minus then Some OpType.Sub else None))
   \<and> (\<forall>t. cmpOp t = (if t = TokenType.Less then Some OpType.LT
                     else if t = TokenType.Greater then Some OpType.GT
                     else if t = TokenType.LessEqual then Some OpType.LE
                     else if t = TokenType.GreaterEqual then Some OpType.GE
                     else if t = TokenType.Equal then Some OpType.Eq
                     else if t = TokenType.NotEqual then Some OpType.NEq else None))
   \<and> (\<forall>k. parseExpression stod_decimal (12 + k) (Parser (tokenize ''1 + 2 * 3'')) =
       ok (BinaryOpNode OpType.Add (NumberLiteral 1 False) (BinaryOpNode OpType.Mul (NumberLiteral 2 False) (NumberLiteral 3 False)),
           (Parser (tokenize ''1 + 2 * 3''))\<lparr>m_positionP := 5\<rparr>)
     \<and> parseExpression stod_decimal (12 + k) (Parser (tokenize ''1 - 2 - 3'')) =
       ok (BinaryOpNode OpType.Sub (BinaryOpNode OpType.Sub (NumberLiteral 1 False) (NumberLiteral 2 False)) (NumberLiteral 3 False),
           (Parser (tokenize ''1 - 2 - 3''))\<lparr>m_positionP := 5\<rparr>)
     \<and> parseExpression stod_decimal (12 + k) (Parser (tokenize ''8 / 4 / 2'')) =
       ok (BinaryOpNode OpType.Div (BinaryOpNode OpType.Div (NumberLiteral 8 False) (NumberLiteral 4 False)) (NumberLiteral 2 False),
           (Parser (tokenize ''8 / 4 / 2''))\<lparr>m_positionP := 5\<rparr>)
     \<and> parseExpression stod_decimal (12 + k) (Parser (tokenize ''1 < 2 < 3'')) =
       ok (BinaryOpNode OpType.LT (BinaryOpNode OpType.LT (NumberLiteral 1 False) (NumberLiteral 2 False)) (NumberLiteral 3 False),
           (Parser (tokenize ''1 < 2 < 3''))\<lparr>m_positionP := 5\<rparr>)
     \<and> parse stod_decimal (12 + k) (tokenize ''1 + 2 * 3;'') =
       ok (ProgramNode [Expr (BinaryOpNode OpType.Add (NumberLiteral 1 False) (BinaryOpNode OpType.Mul (NumberLiteral 2 False) (NumberLiteral 3 False)))])
     \<and> parse stod_decimal (12 + k) (tokenize ''1 - 2 - 3;'') =
       ok (ProgramNode [Expr (BinaryOpNode OpType.Sub (BinaryOpNode OpType.Sub (NumberLiteral 1 False) (NumberLiteral 2 False)) (NumberLiteral 3 False))]))"
proof (intro conjI allI impI)
  fix stod :: "string \<Rightarrow> error + 'd" and n p first p0 rest p' tok
  assume "parsePostfix stod n p = Some (Inr (first, p0))
      \<and> afterOperands (parsePostfix stod n) mulOp p0 rest = Some p'
      \<and> currentP p' = Some (Inr tok) \<and> mulOp (tok_type tok) = None"
  then show "parseMultiplicative stod (n + length rest + 2) p = ok (leftNested first rest, p')"
    using parseMultiplicative_leftNested [of stod n p first p0 rest p' tok] by blast
next
  fix stod :: "string \<Rightarrow> error + 'd" and n p first p0 rest p' tok
  assume "parseMultiplicative stod n p = Some (Inr (first, p0))
      \<and> afterOperands (parseMultiplicative stod n) addOp p0 rest = Some p'
      \<and> currentP p' = Some (Inr tok) \<and> addOp (tok_type tok) = None"
  then show "parseAdditive stod (n + length rest + 2) p = ok (leftNested first rest, p')"
    using parseAdditive_leftNested [of stod n p first p0 rest p' tok] by blast
next
  fix stod :: "string \<Rightarrow> error + 'd" and n p first p0 rest p' tok
  assume "parseAdditive stod n p = Some (Inr (first, p0))
      \<and> afterOperands (parseAdditive stod n) cmpOp p0 rest = Some p'
      \<and> currentP p' = Some (Inr tok) \<and> cmpOp (tok_type tok) = None"
  then show "parseComparison stod (n + length rest + 2) p = ok (leftNested first rest, p')"
    using parseComparison_leftNested [of stod n p first p0 rest p' tok] by blast
next
  fix t
  show "mulOp t = (if t = TokenType.Multiply then Some OpType.Mul
                     else if t = TokenType.Divide then Some OpType.Div else None)"
    by (simp add: mulOp_def)
next
  fix t
  show "addOp t = (if t = TokenType.Plus then Some OpType.Add
                     else if t = TokenType.Minus then Some OpType.Sub else None)"
    by (simp add: addOp_def)
next
  fix t
  show "cmpOp t = (if t = TokenType.Less then Some OpType.LT
                     else if t = TokenType.Greater then Some OpType.GT
                     else if t = TokenType.LessEqual then Some OpType.LE
                     else if t = TokenType.GreaterEqual then Some OpType.GE
                     else if t = TokenType.Equal then Some OpType.Eq
                     else if t = TokenType.NotEqual then Some OpType.NEq else None)"
    by (simp add: cmpOp_def)
next
  fix k
  have "parseExpression stod_decimal 12 (Parser (tokenize ''1 + 2 * 3'')) =
      ok (BinaryOpNode OpType.Add (NumberLiteral 1 False) (BinaryOpNode OpType.Mul (NumberLiteral 2 False) (NumberLiteral 3 False)),
           (Parser (tokenize ''1 + 2 * 3''))\<lparr>m_positionP := 5\<rparr>)"
    by code_simp
  then show "parseExpression stod_decimal (12 + k) (Parser (tokenize ''1 + 2 * 3'')) =
      ok (BinaryOpNode OpType.Add (NumberLiteral 1 False) (BinaryOpNode OpType.Mul (NumberLiteral 2 False) (NumberLiteral 3 False)),
           (Parser (tokenize ''1 + 2 * 3''))\<lparr>m_positionP := 5\<rparr>)"
    unfolding ok_def throw_def by (rule parseExpression_more_fuel)
next
  fix k
  have "parseExpression stod_decimal 12 (Parser (tokenize ''1 - 2 - 3'')) =
      ok (BinaryOpNode OpType.Sub (BinaryOpNode OpType.Sub (NumberLiteral 1 False) (NumberLiteral 2 False)) (NumberLiteral 3 False),
           (Parser (tokenize ''1 - 2 - 3''))\<lparr>m_positionP := 5\<rparr>)"
    by code_simp
  then show "parseExpression stod_decimal (12 + k) (Parser (tokenize ''1 - 2 - 3'')) =
      ok (BinaryOpNode OpType.Sub (BinaryOpNode OpType.Sub (NumberLiteral 1 False) (NumberLiteral 2 False)) (NumberLiteral 3 False),
           (Parser (tokenize ''1 - 2 - 3''))\<lparr>m_positionP := 5\<rparr>)"
    unfolding ok_def throw_def by (rule parseExpression_more_fuel)
next
  fix k
  have "parseExpression stod_decimal 12 (Parser (tokenize ''8 / 4 / 2'')) =
      ok (BinaryOpNode OpType.Div (BinaryOpNode OpType.Div (NumberLiteral 8 False) (NumberLiteral 4 False)) (NumberLiteral 2 False),
           (Parser (tokenize ''8 / 4 / 2''))\<lparr>m_positionP := 5\<rparr>)"
    by code_simp
  then show "parseExpression stod_decimal (12 + k) (Parser (tokenize ''8 / 4 / 2'')) =
      ok (BinaryOpNode OpType.Div (BinaryOpNode OpType.Div (NumberLiteral 8 False) (NumberLiteral 4 False)) (NumberLiteral 2 False),
           (Parser (tokenize ''8 / 4 / 2''))\<lparr>m_positionP := 5\<rparr>)"
    unfolding ok_def throw_def by (rule parseExpression_more_fuel)
next
  fix k
  have "parseExpression stod_decimal 12 (Parser (tokenize ''1 < 2 < 3'')) =
      ok (BinaryOpNode OpType.LT (BinaryOpNode OpType.LT (NumberLiteral 1 False) (NumberLiteral 2 False)) (NumberLiteral 3 False),
           (Parser (tokenize ''1 < 2 < 3''))\<lparr>m_positionP := 5\<rparr>)"
    by code_simp
  then show "parseExpression stod_decimal (12 + k) (Parser (tokenize ''1 < 2 < 3'')) =
      ok (BinaryOpNode OpType.LT (BinaryOpNode OpType.LT (NumberLiteral 1 False) (NumberLiteral 2 False)) (NumberLiteral 3 False),
           (Parser (tokenize ''1 < 2 < 3''))\<lparr>m_positionP := 5\<rparr>)"
    unfolding ok_def throw_def by (rule parseExpression_more_fuel)
next
  fix k
  have "parse stod_decimal 12 (tokenize ''1 + 2 * 3;'') =
      ok (ProgramNode [Expr (BinaryOpNode OpType.Add (NumberLiteral 1 False) (BinaryOpNode OpType.Mul (NumberLiteral 2 False) (NumberLiteral 3 False)))])"
    by code_simp
  then show "parse stod_decimal (12 + k) (tokenize ''1 + 2 * 3;'') =
      ok (ProgramNode [Expr (BinaryOpNode OpType.Add (NumberLiteral 1 False) (BinaryOpNode OpType.Mul (NumberLiteral 2 False) (NumberLiteral 3 False)))])"
    unfolding ok_def throw_def by (rule parse_more_fuel)
next
  fix k
  have "parse stod_decimal 12 (tokenize ''1 - 2 - 3;'') =
      ok (ProgramNode [Expr (BinaryOpNode OpType.Sub (BinaryOpNode OpType.Sub (NumberLiteral 1 False) (NumberLiteral 2 False)) (NumberLiteral 3 False))])"
    by code_simp
  then show "parse stod_decimal (12 + k) (tokenize ''1 - 2 - 3;'') =
      ok (ProgramNode [Expr (BinaryOpNode OpType.Sub (BinaryOpNode OpType.Sub (NumberLiteral 1 False) (NumberLiteral 2 False)) (NumberLiteral 3 False))])"
    unfolding ok_def throw_def by (rule parse_more_fuel)
qed

theorem binary_operators_precedence_and_associativity_witness:
  "parseAdditive stod_decimal 8 (Parser (tokenize ''1 - 2 - 3'')) =
     ok (BinaryOpNode OpType.Sub
           (BinaryOpNode OpType.Sub (NumberLiteral 1 False) (NumberLiteral 2 False))
           (NumberLiteral 3 False),
         (Parser (tokenize ''1 - 2 - 3''))\<lparr>m_positionP := 5\<rparr>)
   \<and> parseAdditive stod_decimal 7 (Parser (tokenize ''1 + 2 * 3'')) =
     ok (BinaryOpNode OpType.Add (NumberLiteral 1 False)
           (BinaryOpNode OpType.Mul (NumberLiteral 2 False) (NumberLiteral 3 False)),
         (Parser (tokenize ''1 + 2 * 3''))\<lparr>m_positionP := 5\<rparr>)
   \<and> parseMultiplicative stod_decimal 7 (Parser (tokenize ''8 / 4 / 2'')) =
     ok (BinaryOpNode OpType.Div
           (BinaryOpNode OpType.Div (NumberLiteral 8 False) (NumberLiteral 4 False))
           (NumberLiteral 2 False),
         (Parser (tokenize ''8 / 4 / 2''))\<lparr>m_positionP := 5\<rparr>)
   \<and> parseComparison stod_decimal 9 (Parser (tokenize ''1 < 2 + 3'')) =
     ok (BinaryOpNode OpType.LT (NumberLiteral 1 False)
           (BinaryOpNode OpType.Add (NumberLiteral 2 False) (NumberLiteral 3 False)),
         (Parser (tokenize ''1 < 2 + 3''))\<lparr>m_positionP := 5\<rparr>)"
proof -
  note inst = binary_operators_precedence_and_associativity [where 'd = rat]
  let ?one = "NumberLiteral 1 False :: rat ExprNode"
  let ?two = "NumberLiteral 2 False :: rat ExprNode"
  let ?three = "NumberLiteral 3 False :: rat ExprNode"
  let ?eof = "Token TokenType.EndOfFile [] 1 9"
  have stop: "mulOp (tok_type ?eof) = None" "addOp (tok_type ?eof) = None"
    "cmpOp (tok_type ?eof) = None"
    by code_simp+
  let ?s = "Parser (tokenize ''1 - 2 - 3'')"
  have s1: "parseMultiplicative stod_decimal 4 ?s = Some (Inr (?one, ?s\<lparr>m_positionP := 1\<rparr>))"
    by code_simp
  have s2: "afterOperands (parseMultiplicative stod_decimal 4) addOp (?s\<lparr>m_positionP := 1\<rparr>)
              [(OpType.Sub, ?two), (OpType.Sub, ?three)] = Some (?s\<lparr>m_positionP := 5\<rparr>)"
    by code_simp
  have s3: "currentP (?s\<lparr>m_positionP := 5\<rparr>) = Some (Inr ?eof)"
    by code_simp
  have a: "parseAdditive stod_decimal 8 ?s =
     ok (BinaryOpNode OpType.Sub (BinaryOpNode OpType.Sub ?one ?two) ?three,
         ?s\<lparr>m_positionP := 5\<rparr>)"
    using inst [THEN conjunct2, THEN conjunct1, rule_format,
        OF conjI [OF s1 conjI [OF s2 conjI [OF s3 stop(2)]]]]
    by (simp add: leftNested_def)
  let ?q = "Parser (tokenize ''1 + 2 * 3'')"
  have q1: "parseMultiplicative stod_decimal 4 ?q = Some (Inr (?one, ?q\<lparr>m_positionP := 1\<rparr>))"
    by code_simp
  have q2: "afterOperands (parseMultiplicative stod_decimal 4) addOp (?q\<lparr>m_positionP := 1\<rparr>)
              [(OpType.Add, BinaryOpNode OpType.Mul ?two ?three)] = Some (?q\<lparr>m_positionP := 5\<rparr>)"
    by code_simp
  have q3: "currentP (?q\<lparr>m_positionP := 5\<rparr>) = Some (Inr ?eof)"
    by code_simp
  have b: "parseAdditive stod_decimal 7 ?q =
     ok (BinaryOpNode OpType.Add ?one (BinaryOpNode OpType.Mul ?two ?three),
         ?q\<lparr>m_positionP := 5\<rparr>)"
    using inst [THEN conjunct2, THEN conjunct1, rule_format,
        OF conjI [OF q1 conjI [OF q2 conjI [OF q3 stop(2)]]]]
    by (simp add: leftNested_def)
  let ?d = "Parser (tokenize ''8 / 4 / 2'')"
  have d1: "parsePostfix stod_decimal 3 ?d =
              Some (Inr (NumberLiteral 8 False, ?d\<lparr>m_positionP := 1\<rparr>))"
    by code_simp
  have d2: "afterOperands (parsePostfix stod_decimal 3) mulOp (?d\<lparr>m_positionP := 1\<rparr>)
              [(OpType.Div, NumberLiteral 4 False), (OpType.Div, ?two)] =
              Some (?d\<lparr>m_positionP := 5\<rparr>)"
    by code_simp
  have d3: "currentP (?d\<lparr>m_positionP := 5\<rparr>) = Some (Inr ?eof)"
    by code_simp
  have c: "parseMultiplicative stod_decimal 7 ?d =
     ok (BinaryOpNode OpType.Div (BinaryOpNode OpType.Div (NumberLiteral 8 False)
           (NumberLiteral 4 False)) ?two,
         ?d\<lparr>m_positionP := 5\<rparr>)"
    using inst [THEN conjunct1, rule_format,
        OF conjI [OF d1 conjI [OF d2 conjI [OF d3 stop(1)]]]]
    by (simp add: leftNested_def)
  let ?c = "Parser (tokenize ''1 < 2 + 3'')"
  have c1: "parseAdditive stod_decimal 6 ?c = Some (Inr (?one, ?c\<lparr>m_positionP := 1\<rparr>))"
    by code_simp
  have c2: "afterOperands (parseAdditive stod_decimal 6) cmpOp (?c\<lparr>m_positionP := 1\<rparr>)
              [(OpType.LT, BinaryOpNode OpType.Add ?two ?three)] = Some (?c\<lparr>m_positionP := 5\<rparr>)"
    by code_simp
  have c3: "currentP (?c\<lparr>m_positionP := 5\<rparr>) = Some (Inr ?eof)"
    by code_simp
  have d: "parseComparison stod_decimal 9 ?c =
     ok (BinaryOpNode OpType.LT ?one (BinaryOpNode OpType.Add ?two ?three),
         ?c\<lparr>m_positionP := 5\<rparr>)"
    using inst [THEN conjunct2, THEN conjunct2, THEN conjunct1, rule_format,
        OF conjI [OF c1 conjI [OF c2 conjI [OF c3 stop(3)]]]]
    by (simp add: leftNested_def)
  show ?thesis
    by (intro conjI) (rule a b c d)+
qed

subsection \<open>No class declaration is ever built\<close>

text \<open>
  C9. For every token vector, every \<open>stod\<close> and every bound on the depth, a tree returned by
  \<^verbatim>\<open>parse()\<close> contains no \<^verbatim>\<open>ClassDeclNode\<close>, at any depth: no grammar function constructs one.
  It is instantiated at a program with an \<open>se\<close>/\<open>alie\<close> statement, a \<open>dum\<close> loop and assignments.
\<close>

theorem parse_never_builds_ClassDeclNode:
  "parse stod n tokens = Some (Inr program) \<Longrightarrow> \<not> programContainsClassDecl program"
  unfolding parse_def by (erule parseLoop_no_class) simp

theorem parse_never_builds_ClassDeclNode_witness:
  "parse stod_decimal 20
     (tokenize ''se (vero) { x = 1; } alie { dum (x < 3) { x = x + 1; } }'') =
   Some (Inr (ProgramNode
     [IfNode (BoolLiteral True)
        [AssignNode ''x'' (NumberLiteral 1 False)]
        [WhileNode (BinaryOpNode OpType.LT (VarRefNode ''x'') (NumberLiteral 3 False))
           [AssignNode ''x''
              (BinaryOpNode OpType.Add (VarRefNode ''x'') (NumberLiteral 1 False))]]]))
   \<and> \<not> programContainsClassDecl (ProgramNode
     [IfNode (BoolLiteral True)
        [AssignNode ''x'' (NumberLiteral 1 False)]
        [WhileNode (BinaryOpNode OpType.LT (VarRefNode ''x'') (NumberLiteral 3 False))
           [AssignNode ''x''
              (BinaryOpNode OpType.Add (VarRefNode ''x'') (NumberLiteral 1 False :: rat ExprNode))]]])"
proof -
  have run: "parse stod_decimal 20
     (tokenize ''se (vero) { x = 1; } alie { dum (x < 3) { x = x + 1; } }'') =
   Some (Inr (ProgramNode
     [IfNode (BoolLiteral True)
        [AssignNode ''x'' (NumberLiteral 1 False)]
        [WhileNode (BinaryOpNode OpType.LT (VarRefNode ''x'') (NumberLiteral 3 False))
           [AssignNode ''x''
              (BinaryOpNode OpType.Add (VarRefNode ''x'') (NumberLiteral 1 False))]]]))"
    by code_simp
  from run parse_never_builds_ClassDeclNode [OF run] show ?thesis by blast
qed

subsection \<open>Assignment targets\<close>

text \<open>
  C5. \<^verbatim>\<open>parseStatement\<close> returns an assignment only when the expression it parsed first is a
  variable reference node and the token after it is \<open>=\<close>. When the expression is any other
  node, a call or a member access in particular, and the token after it is \<open>=\<close>, the statement
  fails with \<^verbatim>\<open>Expected ';'\<close> at the line of that \<open>=\<close>. Parsing \<open>f(x) = 1;\<close> fails so.
\<close>

theorem assignment_targets_are_bare_names:
  "(\<forall>(stod :: string \<Rightarrow> error + 'd) n p name val p'.
      parseStatement stod (Suc n) p = Some (Inr (AssignNode name val, p')) \<longrightarrow>
      (\<exists>p1 tok. parseExpression stod n p = Some (Inr (VarRefNode name, p1))
         \<and> currentP p1 = Some (Inr tok) \<and> tok_type tok = TokenType.Assign))
   \<and> (\<forall>(stod :: string \<Rightarrow> error + 'd) n p e p1 tok.
      parseExpression stod n p = Some (Inr (e, p1))
      \<and> (case e of VarRefNode name \<Rightarrow> False | _ \<Rightarrow> True)
      \<and> currentP p1 = Some (Inr tok) \<and> tok_type tok = TokenType.Assign \<longrightarrow>
      parseStatement stod (Suc n) p =
        throw (runtime_error
          (''Expected '' @ quoted '';'' @ '' at line '' @ to_string (tok_line tok))))
   \<and> (\<forall>k. parse stod_decimal (20 + k) (tokenize ''f(x) = 1;'') =
        (throw (runtime_error (''Expected '' @ quoted '';'' @ '' at line 1''))
           :: rat ProgramNode result))"
proof (intro conjI allI impI)
  fix stod :: "string \<Rightarrow> error + 'd" and n p name val p'
  assume "parseStatement stod (Suc n) p = Some (Inr (AssignNode name val, p'))"
  then show "\<exists>p1 tok. parseExpression stod n p = Some (Inr (VarRefNode name, p1))
         \<and> currentP p1 = Some (Inr tok) \<and> tok_type tok = TokenType.Assign"
    by (rule parseStatement_assignment_only_to_VarRef)
next
  fix stod :: "string \<Rightarrow> error + 'd" and n p e p1 tok
  assume "parseExpression stod n p = Some (Inr (e, p1))
      \<and> (case e of VarRefNode name \<Rightarrow> False | _ \<Rightarrow> True)
      \<and> currentP p1 = Some (Inr tok) \<and> tok_type tok = TokenType.Assign"
  then show "parseStatement stod (Suc n) p =
        throw (runtime_error
          (''Expected '' @ quoted '';'' @ '' at line '' @ to_string (tok_line tok)))"
    using parseStatement_not_assignable [of stod n p e p1 tok] by blast
next
  fix k
  have "parse stod_decimal 20 (tokenize ''f(x) = 1;'') =
        (throw (runtime_error (''Expected '' @ quoted '';'' @ '' at line 1''))
           :: rat ProgramNode result)"
    by code_simp
  then show "parse stod_decimal (20 + k) (tokenize ''f(x) = 1;'') =
        (throw (runtime_error (''Expected '' @ quoted '';'' @ '' at line 1''))
           :: rat ProgramNode result)"
    unfolding throw_def by (rule parse_more_fuel)
qed

theorem assignment_targets_are_bare_names_witness:
  "parseExpression stod_decimal 19 (Parser (tokenize ''f(x) = 1;'')) =
     Some (Inr (CallNode (VarRefNode ''f'') (VarRefNode ''x''),
                (Parser (tokenize ''f(x) = 1;''))\<lparr>m_positionP := 4\<rparr>))
   \<and> currentP ((Parser (tokenize ''f(x) = 1;''))\<lparr>m_positionP := 4\<rparr>) =
     Some (Inr (Token TokenType.Assign ''='' 1 5))
   \<and> parseStatement stod_decimal (Suc 19) (Parser (tokenize ''f(x) = 1;'')) =
     (throw (runtime_error (''Expected '' @ quoted '';'' @ '' at line '' @ ''1''))
        :: (rat ASTNode \<times> Parser) result)
   \<and> parseStatement stod_decimal (Suc 19) (Parser (tokenize ''x = 1;'')) =
     Some (Inr (AssignNode ''x'' (NumberLiteral 1 False),
                (Parser (tokenize ''x = 1;''))\<lparr>m_positionP := 4\<rparr>))
   \<and> (\<exists>p1 tok. parseExpression stod_decimal 19 (Parser (tokenize ''x = 1;'')) =
          Some (Inr (VarRefNode ''x'', p1))
        \<and> currentP p1 = Some (Inr tok) \<and> tok_type tok = TokenType.Assign)"
proof -
  let ?p = "Parser (tokenize ''f(x) = 1;'')"
  let ?e = "CallNode (VarRefNode ''f'') (VarRefNode ''x'') :: rat ExprNode"
  let ?tok = "Token TokenType.Assign ''='' 1 5"
  have e: "parseExpression stod_decimal 19 ?p = Some (Inr (?e, ?p\<lparr>m_positionP := 4\<rparr>))"
    by code_simp
  have c: "currentP (?p\<lparr>m_positionP := 4\<rparr>) = Some (Inr ?tok)"
    by code_simp
  have l: "to_string (tok_line ?tok) = ''1''"
    by code_simp
  have a: "parseStatement stod_decimal (Suc 19) (Parser (tokenize ''x = 1;'')) =
     Some (Inr (AssignNode ''x'' (NumberLiteral 1 False),
                (Parser (tokenize ''x = 1;''))\<lparr>m_positionP := 4\<rparr>))"
    by code_simp
  have v: "case ?e of VarRefNode name \<Rightarrow> False | _ \<Rightarrow> True"
    by (simp only: ExprNode.case)
  have t: "tok_type ?tok = TokenType.Assign"
    by (simp only: Token.sel)
  note inst = assignment_targets_are_bare_names [where 'd = rat]
  have f: "parseStatement stod_decimal (Suc 19) ?p =
     (throw (runtime_error (''Expected '' @ quoted '';'' @ '' at line '' @ ''1''))
        :: (rat ASTNode \<times> Parser) result)"
    using inst [THEN conjunct2, THEN conjunct1, rule_format, OF conjI [OF e conjI [OF v conjI [OF c t]]]]
    by (simp only: l)
  have g: "\<exists>p1 tok. parseExpression stod_decimal 19 (Parser (tokenize ''x = 1;'')) =
          Some (Inr (VarRefNode ''x'', p1))
        \<and> currentP p1 = Some (Inr tok) \<and> tok_type tok = TokenType.Assign"
    using inst [THEN conjunct1, rule_format, OF a] .
  show ?thesis
    by (intro conjI) (rule e c f a g)+
qed

subsection \<open>Parentheses leave no node\<close>

text \<open>
  C10. On \<open>(\<close>, \<^verbatim>\<open>parsePrimary\<close> returns the very node that \<^verbatim>\<open>parseExpression\<close> returned for
  the tokens between the parentheses, with the cursor after the \<open>)\<close>. So \<open>(x) = 1;\<close> parses
  to the assignment to \<open>x\<close>, the same tree as \<open>x = 1;\<close>.
\<close>

theorem parenthesized_expression_is_unwrapped:
  "(\<forall>(stod :: string \<Rightarrow> error + 'd) n p tok e p1 tok1.
      currentP p = Some (Inr tok) \<and> tok_type tok = TokenType.LParen
      \<and> parseExpression stod n (advanceP p) = Some (Inr (e, p1))
      \<and> currentP p1 = Some (Inr tok1) \<and> tok_type tok1 = TokenType.RParen \<longrightarrow>
      parsePrimary stod (Suc n) p = ok (e, advanceP p1))
   \<and> (\<forall>k. parse stod_decimal (20 + k) (tokenize ''(x) = 1;'') =
        ok (ProgramNode [AssignNode ''x'' (NumberLiteral 1 False)]))
   \<and> (\<forall>k. parse stod_decimal (20 + k) (tokenize ''x = 1;'') =
        ok (ProgramNode [AssignNode ''x'' (NumberLiteral 1 False)]))"
proof (intro conjI allI impI)
  fix stod :: "string \<Rightarrow> error + 'd" and n p tok e p1 tok1
  assume "currentP p = Some (Inr tok) \<and> tok_type tok = TokenType.LParen
      \<and> parseExpression stod n (advanceP p) = Some (Inr (e, p1))
      \<and> currentP p1 = Some (Inr tok1) \<and> tok_type tok1 = TokenType.RParen"
  then show "parsePrimary stod (Suc n) p = ok (e, advanceP p1)"
    using parsePrimary_parenthesized [of p tok stod n e p1 tok1] by blast
next
  fix k
  have "parse stod_decimal 20 (tokenize ''(x) = 1;'') =
        ok (ProgramNode [AssignNode ''x'' (NumberLiteral 1 False :: rat ExprNode)])"
    by code_simp
  then show "parse stod_decimal (20 + k) (tokenize ''(x) = 1;'') =
        ok (ProgramNode [AssignNode ''x'' (NumberLiteral 1 False)])"
    unfolding ok_def by (rule parse_more_fuel)
next
  fix k
  have "parse stod_decimal 20 (tokenize ''x = 1;'') =
        ok (ProgramNode [AssignNode ''x'' (NumberLiteral 1 False :: rat ExprNode)])"
    by code_simp
  then show "parse stod_decimal (20 + k) (tokenize ''x = 1;'') =
        ok (ProgramNode [AssignNode ''x'' (NumberLiteral 1 False)])"
    unfolding ok_def by (rule parse_more_fuel)
qed

theorem parenthesized_expression_is_unwrapped_witness:
  "currentP (Parser (tokenize ''(x) = 1;'')) = Some (Inr (Token TokenType.LParen ''('' 1 0))
   \<and> parseExpression stod_decimal 6 (advanceP (Parser (tokenize ''(x) = 1;''))) =
       Some (Inr (VarRefNode ''x'', (Parser (tokenize ''(x) = 1;''))\<lparr>m_positionP := 2\<rparr>))
   \<and> currentP ((Parser (tokenize ''(x) = 1;''))\<lparr>m_positionP := 2\<rparr>) =
       Some (Inr (Token TokenType.RParen '')'' 1 2))
   \<and> parsePrimary stod_decimal (Suc 6) (Parser (tokenize ''(x) = 1;'')) =
       ok (VarRefNode ''x'' :: rat ExprNode,
           advanceP ((Parser (tokenize ''(x) = 1;''))\<lparr>m_positionP := 2\<rparr>))"
proof -
  let ?p = "Parser (tokenize ''(x) = 1;'')"
  let ?l = "Token TokenType.LParen ''('' 1 0"
  let ?r = "Token TokenType.RParen '')'' 1 2"
  have a: "currentP ?p = Some (Inr ?l)"
    by code_simp
  have b: "parseExpression stod_decimal 6 (advanceP ?p) =
       Some (Inr (VarRefNode ''x'' :: rat ExprNode, ?p\<lparr>m_positionP := 2\<rparr>))"
    by code_simp
  have c: "currentP (?p\<lparr>m_positionP := 2\<rparr>) = Some (Inr ?r)"
    by code_simp
  have tl: "tok_type ?l = TokenType.LParen" and tr: "tok_type ?r = TokenType.RParen"
    by (simp_all only: Token.sel)
  have d: "parsePrimary stod_decimal (Suc 6) ?p =
       ok (VarRefNode ''x'' :: rat ExprNode, advanceP (?p\<lparr>m_positionP := 2\<rparr>))"
    using parenthesized_expression_is_unwrapped [where 'd = rat, THEN conjunct1, rule_format,
      OF conjI [OF a conjI [OF tl conjI [OF b conjI [OF c tr]]]]] .
  show ?thesis
    by (intro conjI) (rule a b c d)+
qed

subsection \<open>The end-of-file token\<close>

text \<open>
  C7. For every source text the tokens that \<^verbatim>\<open>tokenize\<close> returns are tokens that are not
  end-of-file tokens, followed by one end-of-file token with empty text at the line and column
  of the cursor when the loop ends. When every character of the text is white space, that
  end-of-file token is the only token.
\<close>

theorem tokenize_ends_with_one_EndOfFile:
  "(\<exists>body. tokenize src =
             body @ [Token TokenType.EndOfFile []
                       (m_line (finalCursor src)) (m_column (finalCursor src))]
          \<and> (\<forall>tok\<in>set body. tok_type tok \<noteq> TokenType.EndOfFile))
   \<and> ((\<forall>c\<in>set src. isspace c) \<longrightarrow>
        tokenize src =
          [Token TokenType.EndOfFile [] (m_line (finalCursor src)) (m_column (finalCursor src))])"
proof
  show "\<exists>body. tokenize src =
             body @ [Token TokenType.EndOfFile []
                       (m_line (finalCursor src)) (m_column (finalCursor src))]
          \<and> (\<forall>tok\<in>set body. tok_type tok \<noteq> TokenType.EndOfFile)"
    using tokenizeLoop_shape [of "Tokenizer src"] by (simp add: tokenize_def finalCursor_def)
next
  show "(\<forall>c\<in>set src. isspace c) \<longrightarrow>
        tokenize src =
          [Token TokenType.EndOfFile [] (m_line (finalCursor src)) (m_column (finalCursor src))]"
  proof
    assume "\<forall>c\<in>set src. isspace c"
    from tokenize_whitespace [OF this] obtain t where
      "tokenizeLoop [] (Tokenizer src) = ([Token TokenType.EndOfFile [] (m_line t) (m_column t)], t)"
      by blast
    then show "tokenize src =
          [Token TokenType.EndOfFile [] (m_line (finalCursor src)) (m_column (finalCursor src))]"
      by (simp add: tokenize_def finalCursor_def)
  qed
qed

theorem tokenize_ends_with_one_EndOfFile_witness:
  "list_all isspace [CHR '' '', CHR 0x09, CHR 0x0A, CHR '' '']
   \<and> finalCursor [CHR '' '', CHR 0x09, CHR 0x0A, CHR '' ''] =
       \<lparr>m_source = [CHR '' '', CHR 0x09, CHR 0x0A, CHR '' ''], m_position = 4,
        m_line = 2, m_column = 1\<rparr>
   \<and> tokenize [CHR '' '', CHR 0x09, CHR 0x0A, CHR '' ''] = [Token TokenType.EndOfFile [] 2 1]
   \<and> (\<exists>body. tokenize ''x = 1;'' = body @ [Token TokenType.EndOfFile [] 1 6]
        \<and> (\<forall>tok\<in>set body. tok_type tok \<noteq> TokenType.EndOfFile))"
proof -
  let ?ws = "[CHR '' '', CHR 0x09, CHR 0x0A, CHR '' '']"
  have w: "list_all isspace ?ws"
    by code_simp
  then have h: "\<forall>c\<in>set ?ws. isspace c"
    by (simp only: list_all_iff)
  have f: "finalCursor ?ws = \<lparr>m_source = ?ws, m_position = 4, m_line = 2, m_column = 1\<rparr>"
    by code_simp
  have g: "finalCursor ''x = 1;'' =
             \<lparr>m_source = ''x = 1;'', m_position = 6, m_line = 1, m_column = 6\<rparr>"
    by code_simp
  have a: "tokenize ?ws = [Token TokenType.EndOfFile [] 2 1]"
    using tokenize_ends_with_one_EndOfFile [of ?ws, THEN conjunct2, THEN mp, OF h]
    by (simp only: f Tokenizer.simps)
  have b: "\<exists>body. tokenize ''x = 1;'' = body @ [Token TokenType.EndOfFile [] 1 6]
        \<and> (\<forall>tok\<in>set body. tok_type tok \<noteq> TokenType.EndOfFile)"
    using tokenize_ends_with_one_EndOfFile [of "''x = 1;''", THEN conjunct1]
    by (simp only: g Tokenizer.simps)
  show ?thesis
    by (intro conjI) (rule w f a b)+
qed

subsection \<open>Termination of the tokenizer\<close>

text \<open>
  C8. \<^verbatim>\<open>tokenize\<close> is a total function with no error value, as the source has no \<^verbatim>\<open>throw\<close>.
  Every iteration of its loop leaves the source as it is and moves the cursor forward by at
  least one character; on a character that no branch recognizes, the iteration appends an
  Unknown token with that character as text, at the position of the character, and moves by
  one. The loop returns before its condition has been evaluated more than \<open>length src + 1\<close>
  times.
\<close>

theorem tokenize_terminates:
  "(\<forall>tokens t. current t \<noteq> CHR 0x00 \<longrightarrow>
      m_position t < m_position (snd (tokenizeStep tokens t))
      \<and> m_source (snd (tokenizeStep tokens t)) = m_source t)
   \<and> (\<forall>tokens t. unrecognized (current t) \<longrightarrow>
      tokenizeStep tokens t =
        (tokens @ [Token TokenType.Unknown [current t] (m_line t) (m_column t)], advance t))
   \<and> tokenizeBounded (Suc (length src)) [] (Tokenizer src) =
        Some (tokenizeLoop [] (Tokenizer src))"
proof (intro conjI allI impI)
  fix tokens t
  assume "current t \<noteq> CHR 0x00"
  obtain tokens' t' where s: "tokenizeStep tokens t = (tokens', t')"
    by (cases "tokenizeStep tokens t")
  from tokenizeStep_cursor [OF s] s
  show "m_position t < m_position (snd (tokenizeStep tokens t))"
    and "m_source (snd (tokenizeStep tokens t)) = m_source t"
    by simp_all
next
  fix tokens t
  assume "unrecognized (current t)"
  then show "tokenizeStep tokens t =
        (tokens @ [Token TokenType.Unknown [current t] (m_line t) (m_column t)], advance t)"
    by (rule tokenizeStep_unrecognized)
next
  show "tokenizeBounded (Suc (length src)) [] (Tokenizer src) =
        Some (tokenizeLoop [] (Tokenizer src))"
    by (rule tokenizeBounded_returns) (simp add: Tokenizer_def)
qed

theorem tokenize_terminates_witness:
  "current (Tokenizer ''#a'') \<noteq> CHR 0x00
   \<and> unrecognized (current (Tokenizer ''#a''))
   \<and> m_position (Tokenizer ''#a'') < m_position (snd (tokenizeStep [] (Tokenizer ''#a'')))
   \<and> tokenizeStep [] (Tokenizer ''#a'') =
       ([Token TokenType.Unknown ''#'' 1 0],
        \<lparr>m_source = ''#a'', m_position = 1, m_line = 1, m_column = 1\<rparr>)
   \<and> tokenizeBounded 3 [] (Tokenizer ''#a'') =
       Some ([Token TokenType.Unknown ''#'' 1 0, Token TokenType.Identifier ''a'' 1 1,
              Token TokenType.EndOfFile [] 1 2],
             \<lparr>m_source = ''#a'', m_position = 2, m_line = 1, m_column = 2\<rparr>)"
proof -
  let ?t = "Tokenizer ''#a''"
  have h1: "current ?t \<noteq> CHR 0x00"
    by code_simp
  have h2: "unrecognized (current ?t)"
    by code_simp
  have c: "current ?t = CHR ''#''" and l: "m_line ?t = 1" and k: "m_column ?t = 0"
    and a: "advance ?t = \<lparr>m_source = ''#a'', m_position = 1, m_line = 1, m_column = 1\<rparr>"
    by code_simp+
  have r: "tokenizeLoop [] ?t =
       ([Token TokenType.Unknown ''#'' 1 0, Token TokenType.Identifier ''a'' 1 1,
         Token TokenType.EndOfFile [] 1 2],
        \<lparr>m_source = ''#a'', m_position = 2, m_line = 1, m_column = 2\<rparr>)"
    by code_simp
  have n: "Suc (length ''#a'') = 3"
    by simp
  note inst = tokenize_terminates [of "''#a''"]
  have p: "m_position ?t < m_position (snd (tokenizeStep [] ?t))"
    using inst [THEN conjunct1, rule_format, OF h1, THEN conjunct1] .
  have u: "tokenizeStep [] ?t =
       ([Token TokenType.Unknown ''#'' 1 0],
        \<lparr>m_source = ''#a'', m_position = 1, m_line = 1, m_column = 1\<rparr>)"
    using inst [THEN conjunct2, THEN conjunct1, rule_format, OF h2, of "[]"]
    by (simp only: c l k a append_Nil)
  have b: "tokenizeBounded 3 [] ?t =
       Some ([Token TokenType.Unknown ''#'' 1 0, Token TokenType.Identifier ''a'' 1 1,
              Token TokenType.EndOfFile [] 1 2],
             \<lparr>m_source = ''#a'', m_position = 2, m_line = 1, m_column = 2\<rparr>)"
    using inst [THEN conjunct2, THEN conjunct2]
    by (simp only: n r)
  show ?thesis
    by (intro conjI) (rule h1 h2 p u b)+
qed

subsection \<open>A second dot ends the number\<close>

text \<open>
  C6. When the cursor stands before digits, a \<open>.\<close>, digits (possibly none) and a second \<open>.\<close>,
  the tokens read next are a Number token whose text is the digits and the first \<open>.\<close> up to
  the second \<open>.\<close>, and then a Dot token for that second \<open>.\<close>, at the column where it stands.
  This holds at any state of the cursor, after any tokens read before, and so for a source that
  starts with such a number; \<open>1.2.3\<close> gives the Number \<open>1.2\<close>, a Dot, and the Number \<open>3\<close>.
\<close>

theorem number_stops_at_second_dot:
  "(\<forall>tokens t.
      remaining t = ds1 @ ''.'' @ ds2 @ ''.'' @ rest \<and> ds1 \<noteq> []
      \<and> (\<forall>c\<in>set ds1. isdigit c) \<and> (\<forall>c\<in>set ds2. isdigit c) \<longrightarrow>
      (\<exists>more. fst (tokenizeLoop tokens t) =
         tokens @ Token TokenType.Number (ds1 @ ''.'' @ ds2) (m_line t) (m_column t)
                # Token TokenType.Dot ''.'' (m_line t)
                    (m_column t + int (length ds1 + length ds2 + 1))
                # more))
   \<and> (ds1 \<noteq> [] \<and> (\<forall>c\<in>set ds1. isdigit c) \<and> (\<forall>c\<in>set ds2. isdigit c) \<longrightarrow>
      (\<exists>more. tokenize (ds1 @ ''.'' @ ds2 @ ''.'' @ rest) =
         Token TokenType.Number (ds1 @ ''.'' @ ds2) 1 0
         # Token TokenType.Dot ''.'' 1 (int (length ds1 + length ds2 + 1))
         # more))
   \<and> tokenize ''1.2.3'' =
        [Token TokenType.Number ''1.2'' 1 0, Token TokenType.Dot ''.'' 1 3,
         Token TokenType.Number ''3'' 1 4, Token TokenType.EndOfFile [] 1 5]"
proof (intro conjI allI impI)
  fix tokens t
  assume "remaining t = ds1 @ ''.'' @ ds2 @ ''.'' @ rest \<and> ds1 \<noteq> []
      \<and> (\<forall>c\<in>set ds1. isdigit c) \<and> (\<forall>c\<in>set ds2. isdigit c)"
  then show "\<exists>more. fst (tokenizeLoop tokens t) =
         tokens @ Token TokenType.Number (ds1 @ ''.'' @ ds2) (m_line t) (m_column t)
                # Token TokenType.Dot ''.'' (m_line t)
                    (m_column t + int (length ds1 + length ds2 + 1))
                # more"
    using tokenizeLoop_number_second_dot [of t ds1 ds2 rest tokens] by blast
next
  assume h: "ds1 \<noteq> [] \<and> (\<forall>c\<in>set ds1. isdigit c) \<and> (\<forall>c\<in>set ds2. isdigit c)"
  let ?src = "ds1 @ ''.'' @ ds2 @ ''.'' @ rest"
  have "remaining (Tokenizer ?src) = ?src"
    by (simp add: remaining_def Tokenizer_def)
  from tokenizeLoop_number_second_dot [OF this, of "[]"] h
  show "\<exists>more. tokenize ?src =
         Token TokenType.Number (ds1 @ ''.'' @ ds2) 1 0
         # Token TokenType.Dot ''.'' 1 (int (length ds1 + length ds2 + 1))
         # more"
    by (simp add: tokenize_def Tokenizer_def)
next
  show "tokenize ''1.2.3'' =
        [Token TokenType.Number ''1.2'' 1 0, Token TokenType.Dot ''.'' 1 3,
         Token TokenType.Number ''3'' 1 4, Token TokenType.EndOfFile [] 1 5]"
    by code_simp
qed

theorem number_stops_at_second_dot_witness:
  "list_all isdigit ''12'' \<and> list_all isdigit ''5''
   \<and> (\<exists>more. tokenize ''12.5.x'' =
         Token TokenType.Number ''12.5'' 1 0 # Token TokenType.Dot ''.'' 1 4 # more)"
proof -
  have d: "list_all isdigit ''12''" "list_all isdigit ''5''"
    by code_simp+
  then have h: "''12'' \<noteq> [] \<and> (\<forall>c\<in>set ''12''. isdigit c) \<and> (\<forall>c\<in>set ''5''. isdigit c)"
    by (simp only: list_all_iff) simp
  have "\<exists>more. tokenize (''12'' @ ''.'' @ ''5'' @ ''.'' @ ''x'') =
         Token TokenType.Number (''12'' @ ''.'' @ ''5'') 1 0
         # Token TokenType.Dot ''.'' 1 (int (length ''12'' + length ''5'' + 1)) # more"
    using number_stops_at_second_dot [of "''12''" "''5''" "''x''", THEN conjunct2, THEN conjunct1,
        THEN mp, OF h] .
  then have "\<exists>more. tokenize ''12.5.x'' =
         Token TokenType.Number ''12.5'' 1 0 # Token TokenType.Dot ''.'' 1 4 # more"
    by simp
  with d show ?thesis by blast
qed

end
